theory Spec2Isabelle
  imports Complex_Main "HOL-Library.Stream" "HOL-Library.Multiset"
begin

section \<open>Data model\<close>

text \<open>
  JavaScript numbers are modelled as real numbers. Except for the sampler, the
  arithmetic of the library is the exact arithmetic of its formulas, without rounding.
  The sampler \<^verbatim>\<open>poissonDisc\<close> is modelled twice: in exact arithmetic, and with every
  operation rounded to binary64 as the runtime does, since its grid depends on the
  rounding of two quotients. The places where the source produces or tests a non-finite
  number (a division by zero, a centroid that is not finite, the constant
  \<^verbatim>\<open>Infinity\<close>) are written out as separate cases. The exceptions the runtime can
  throw in the modelled code are values of \<open>js_error\<close>.
\<close>

datatype js_error = RangeError | TypeError

text \<open>A point object \<^verbatim>\<open>{x, y}\<close>. The fields are named \<open>px\<close> and \<open>py\<close>.\<close>

record point =
  px :: real
  py :: real

text \<open>A coordinate array \<^verbatim>\<open>[x, y]\<close>: \<^verbatim>\<open>p[0]\<close> is \<open>fst p\<close>, \<^verbatim>\<open>p[1]\<close> is \<open>snd p\<close>.\<close>

type_synonym vec = "real \<times> real"

text \<open>A number that may be the constant \<^verbatim>\<open>Infinity\<close>.\<close>

datatype num = Finite real | Infinity

text \<open>
  The shared pseudo-random generator \<^verbatim>\<open>prng\<close> (src/prng.js, package seedrandom) is the
  stream of the numbers its successive calls return: a call reads the head and leaves
  the tail.
\<close>

type_synonym prng = "real stream"

section \<open>vec2.js: distance\<close>

definition distanceSquared :: "point \<Rightarrow> point \<Rightarrow> real" where
  "distanceSquared a b = (let dx = px b - px a; dy = py b - py a in dx * dx + dy * dy)"

definition distance :: "point \<Rightarrow> point \<Rightarrow> real" where
  "distance a b = (let dx = px b - px a; dy = py b - py a in sqrt (dx * dx + dy * dy))"

section \<open>map.js\<close>

text \<open>
  A division whose divisor is zero gives \<^verbatim>\<open>Infinity\<close> or \<^verbatim>\<open>NaN\<close> in the source;
  \<open>js_div\<close> returns \<open>None\<close> there.
\<close>

definition js_div :: "real \<Rightarrow> real \<Rightarrow> real option" where
  "js_div a b = (if b = 0 then None else Some (a / b))"

definition map_js :: "real \<Rightarrow> real \<Rightarrow> real \<Rightarrow> real \<Rightarrow> real \<Rightarrow> real option" where
  "map_js n start1 end1 start2 end2 =
     (if start1 = end1 then Some start2
      else (case js_div (n - start1) (end1 - start1) of
              None \<Rightarrow> None
            | Some q \<Rightarrow> Some (q * (end2 - start2) + start2)))"

section \<open>random.js\<close>

text \<open>\<^verbatim>\<open>Math.round\<close> rounds to the nearest integer, a half towards plus infinity.\<close>

definition js_round :: "real \<Rightarrow> int" where
  "js_round v = \<lfloor>v + 1 / 2\<rfloor>"

text \<open>
  The first argument of \<^verbatim>\<open>random\<close> is a number or an array, and the result is a
  number, an element of the array, or \<^verbatim>\<open>undefined\<close> (an index outside the array).
\<close>

datatype 'a random_arg = Range real | Array "'a list"

datatype 'a random_res = Number real | Element 'a | Undefined

function random_js :: "'a random_arg \<Rightarrow> real \<Rightarrow> bool \<Rightarrow> prng \<Rightarrow> 'a random_res \<times> prng" where
  "random_js (Array a) mx toInteger g =
     (case random_js (Range 0) (real (length a) - 1) True g of
        (Number i, g') \<Rightarrow>
          (if 0 \<le> i \<and> i < real (length a) \<and> i = of_int \<lfloor>i\<rfloor>
           then Element (a ! nat \<lfloor>i\<rfloor>) else Undefined, g')
      | (_, g') \<Rightarrow> (Undefined, g'))"
| "random_js (Range mn) mx toInteger g =
     (let val = shd g * (mx - mn) + mn
      in (Number (if toInteger then of_int (js_round val) else val), stl g))"
  by pat_completeness auto
termination
  by (relation "measure (\<lambda>(a, mx, toInteger, g). case a of Array xs \<Rightarrow> 1 | Range mn \<Rightarrow> 0)") auto

section \<open>distToSegment.js\<close>

definition sqr :: "real \<Rightarrow> real" where
  "sqr v = v * v"

definition dist2 :: "vec \<Rightarrow> vec \<Rightarrow> real" where
  "dist2 v w = sqr (fst v - fst w) + sqr (snd v - snd w)"

definition distToSegmentSquared :: "vec \<Rightarrow> vec \<Rightarrow> vec \<Rightarrow> real" where
  "distToSegmentSquared p v w =
     (let l2 = dist2 v w
      in if l2 = 0 then dist2 p v
         else (let t = ((fst p - fst v) * (fst w - fst v) + (snd p - snd v) * (snd w - snd v)) / l2;
                   t = max 0 (min 1 t)
               in dist2 p (fst v + t * (fst w - fst v), snd v + t * (snd w - snd v))))"

definition distToSegment :: "vec \<Rightarrow> vec \<Rightarrow> vec \<Rightarrow> real" where
  "distToSegment p v w = sqrt (distToSegmentSquared p v w)"

section \<open>createVoronoiDiagram.js\<close>

text \<open>
  The tessellation comes from the packages d3-delaunay and d3, which are not part of
  the repository. They are a parameter of the model: a value of type \<open>'t d3\<close> holds the
  operations the source calls, over a type \<open>'t\<close> of tessellation states.
  \<^item> \<open>delaunay_voronoi lib coords box\<close> is \<^verbatim>\<open>Delaunay.from(points).voronoi(box)\<close>, for the
    coordinate buffer \<open>coords\<close>;
  \<^item> \<open>voronoi_update lib v coords\<close> is \<^verbatim>\<open>voronoi.update()\<close>, called when the buffer holds
    \<open>coords\<close>;
  \<^item> \<open>voronoi_cellPolygon lib v coords i\<close> is \<^verbatim>\<open>voronoi.cellPolygon(i)\<close> (\<open>None\<close> is
    \<^verbatim>\<open>null\<close>); it is given the buffer too, since the source writes into the buffer
    between two updates;
  \<^item> \<open>voronoi_neighbors lib v coords i\<close> lists what \<^verbatim>\<open>voronoi.neighbors(i)\<close> yields;
  \<^item> \<open>polygonCentroid lib\<close> is \<^verbatim>\<open>polygonCentroid\<close> of d3. It divides two sums by
    the area sum of the polygon, so a polygon whose area sum is zero has a centroid with
    a component that is \<^verbatim>\<open>NaN\<close> or infinite. \<open>polygonCentroid_finite lib pts\<close> tells
    that both components of the centroid of \<open>pts\<close> are finite numbers; only then is
    \<open>polygonCentroid lib pts\<close> the centroid.
\<close>

record 't d3 =
  delaunay_voronoi :: "real list \<Rightarrow> real \<times> real \<times> real \<times> real \<Rightarrow> 't"
  voronoi_update :: "'t \<Rightarrow> real list \<Rightarrow> 't"
  voronoi_cellPolygon :: "'t \<Rightarrow> real list \<Rightarrow> nat \<Rightarrow> vec list option"
  voronoi_neighbors :: "'t \<Rightarrow> real list \<Rightarrow> nat \<Rightarrow> nat list"
  polygonCentroid :: "vec list \<Rightarrow> vec"
  polygonCentroid_finite :: "vec list \<Rightarrow> bool"

text \<open>
  Modelled from the spec: \<^verbatim>\<open>delaunay.points\<close>, the buffer that \<^verbatim>\<open>Delaunay.from\<close> builds
  from the array of \<^verbatim>\<open>[x, y]\<close> pairs, is the flat list of the site coordinates
  \<open>x0, y0, x1, y1, ...\<close>, in the order of the sites.
\<close>

fun delaunay_points :: "vec list \<Rightarrow> real list" where
  "delaunay_points [] = []"
| "delaunay_points (p # ps) = fst p # snd p # delaunay_points ps"

text \<open>
  \<^verbatim>\<open>Math.atan2(b, a)\<close> on real numbers: the angle of the vector \<open>(a, b)\<close>, in the
  interval from \<open>-pi\<close> (excluded) to \<open>pi\<close> (included), and \<open>0\<close> for the null vector.
\<close>

definition atan2 :: "real \<Rightarrow> real \<Rightarrow> real" where
  "atan2 b a =
     (if 0 < a then arctan (b / a)
      else if a < 0 then (if 0 \<le> b then arctan (b / a) + pi else arctan (b / a) - pi)
      else if 0 < b then pi / 2
      else if b < 0 then - (pi / 2)
      else 0)"

text \<open>
  \<^verbatim>\<open>sorted.sort(sortByAngle)\<close>: the comparator is the difference of the two angles, and
  the sort of the runtime is stable, so the copy is sorted by ascending angle with equal
  angles in their first order. \<open>sort_key\<close> is that sort.
\<close>

definition sortPointsByAngle :: "vec \<Rightarrow> vec list \<Rightarrow> vec list" where
  "sortPointsByAngle centroid pts =
     sort_key (\<lambda>p. atan2 (snd p - snd centroid) (fst p - fst centroid)) pts"

text \<open>The test \<^verbatim>\<open>dist < closest\<close>, where \<^verbatim>\<open>closest\<close> starts as \<^verbatim>\<open>Infinity\<close>.\<close>

fun less_num :: "real \<Rightarrow> num \<Rightarrow> bool" where
  "less_num d Infinity = True"
| "less_num d (Finite c) = (d < c)"

text \<open>
  \<^verbatim>\<open>getClosestEdgeToCentroid\<close>. The sorted copy has the length of the polygon whatever
  the centroid is, so the test \<^verbatim>\<open>numPoints < 2\<close> comes first. With a centroid that has
  a component \<^verbatim>\<open>NaN\<close> or infinite, every \<^verbatim>\<open>dist\<close> of the loop is \<^verbatim>\<open>NaN\<close> or
  \<^verbatim>\<open>Infinity\<close> (the squared differences of \<^verbatim>\<open>dist2\<close> are), the test
  \<^verbatim>\<open>dist < closest\<close> is false in every round, and the function returns the initial
  \<^verbatim>\<open>Infinity\<close>.
\<close>

definition getClosestEdgeToCentroid :: "'t d3 \<Rightarrow> vec list \<Rightarrow> num" where
  "getClosestEdgeToCentroid lib pts =
     (let centroid = polygonCentroid lib pts;
          pointsSorted = sortPointsByAngle centroid pts;
          numPoints = length pointsSorted
      in if numPoints < 2 then Finite 0
         else if \<not> polygonCentroid_finite lib pts then Infinity
         else fold (\<lambda>i closest.
                      let p1 = pointsSorted ! i;
                          p2 = pointsSorted ! ((i + 1) mod numPoints);
                          dist = distToSegment centroid p1 p2
                      in if less_num dist closest then Finite dist else closest)
                [0..<numPoints] Infinity)"

text \<open>
  A cell object. Its property \<^verbatim>\<open>points\<close> is the field \<open>cell_points\<close>. A reference to a
  cell object is the position of the cell in the array \<^verbatim>\<open>cells\<close>, so \<open>neighbors\<close> is a
  list of positions. The temporary property \<^verbatim>\<open>_pointIndex\<close>, deleted before the
  function returns, is kept beside the cell while the cells are built. The field
  \<open>centroid\<close> is the centroid when \<open>polygonCentroid_finite\<close> holds of the polygon.
\<close>

record cell =
  cell_points :: "vec list"
  innerCircleRadius :: num
  centroid :: point
  neighbors :: "nat list"

record diagram =
  cells :: "cell list"
  diagramPoints :: "point list"

definition formatCell :: "'t d3 \<Rightarrow> vec list \<Rightarrow> cell" where
  "formatCell lib pts =
     \<lparr>cell_points = pts,
      innerCircleRadius = getClosestEdgeToCentroid lib pts,
      centroid = \<lparr>px = fst (polygonCentroid lib pts), py = snd (polygonCentroid lib pts)\<rparr>,
      neighbors = []\<rparr>"

text \<open>
  The inner loop of the relaxation, from index \<open>i\<close> of the buffer on, in steps of two.
  \<^verbatim>\<open>i >> 1\<close> is \<open>i div 2\<close> (the buffer is shorter than \<open>2^31\<close>). A write into the
  typed array outside its length is ignored, as \<open>list_update\<close> does. A centroid that
  is not finite is written into the buffer like any other; the buffer of the model holds
  real numbers, so a relaxation round with such a centroid is modelled up to the length
  of the buffer only.
\<close>

function relaxCells :: "'t d3 \<Rightarrow> 't \<Rightarrow> real \<Rightarrow> real list \<Rightarrow> nat \<Rightarrow> real list" where
  "relaxCells lib v relaxationFactor coords i =
     (if i < length coords then
        (case voronoi_cellPolygon lib v coords (i div 2) of
           None \<Rightarrow> relaxCells lib v relaxationFactor coords (i + 2)
         | Some cell \<Rightarrow>
             relaxCells lib v relaxationFactor
               (coords[i := coords ! i
                           + (fst (polygonCentroid lib cell) - coords ! i) * relaxationFactor,
                       i + 1 := coords ! (i + 1)
                           + (snd (polygonCentroid lib cell) - coords ! (i + 1)) * relaxationFactor])
               (i + 2))
      else coords)"
  by pat_completeness auto
termination
  by (relation "measure (\<lambda>(lib, v, relaxationFactor, coords, i). length coords - i)") auto

text \<open>The outer loop: \<open>relaxIterations\<close> rounds, each followed by \<^verbatim>\<open>voronoi.update()\<close>.\<close>

fun relax :: "'t d3 \<Rightarrow> real \<Rightarrow> nat \<Rightarrow> real list \<times> 't \<Rightarrow> real list \<times> 't" where
  "relax lib relaxationFactor 0 (coords, v) = (coords, v)"
| "relax lib relaxationFactor (Suc k) (coords, v) =
     (let coords' = relaxCells lib v relaxationFactor coords 0
      in relax lib relaxationFactor k (coords', voronoi_update lib v coords'))"

text \<open>The loop that fills \<^verbatim>\<open>diagramPoints\<close>.\<close>

function collectPoints :: "real list \<Rightarrow> nat \<Rightarrow> point list" where
  "collectPoints coords i =
     (if i < length coords
      then \<lparr>px = coords ! i, py = coords ! (i + 1)\<rparr> # collectPoints coords (i + 2)
      else [])"
  by pat_completeness auto
termination
  by (relation "measure (\<lambda>(coords, i). length coords - i)") auto

text \<open>
  The loop that builds the cells: the state is the array \<^verbatim>\<open>cells\<close> (each cell with its
  \<^verbatim>\<open>_pointIndex\<close>) and the map \<^verbatim>\<open>pointIndexToCell\<close>.
\<close>

function buildCells :: "'t d3 \<Rightarrow> 't \<Rightarrow> real list \<Rightarrow> nat
    \<Rightarrow> (nat \<times> cell) list \<times> (nat \<rightharpoonup> nat) \<Rightarrow> (nat \<times> cell) list \<times> (nat \<rightharpoonup> nat)" where
  "buildCells lib v coords i (cs, pointIndexToCell) =
     (if i < length coords then
        (let pointIndex = i div 2
         in case voronoi_cellPolygon lib v coords pointIndex of
              None \<Rightarrow> buildCells lib v coords (i + 2) (cs, pointIndexToCell)
            | Some cell \<Rightarrow>
                buildCells lib v coords (i + 2)
                  (cs @ [(pointIndex, formatCell lib cell)],
                   pointIndexToCell(pointIndex \<mapsto> length cs)))
      else (cs, pointIndexToCell))"
  by pat_completeness auto
termination
  by (relation "measure (\<lambda>(lib, v, coords, i, st). length coords - i)") auto

text \<open>
  The loop that links the neighbours: the indices the tessellation yields are looked up
  in the map, and the lookups that are \<^verbatim>\<open>undefined\<close> are filtered out.
\<close>

definition linkNeighbors :: "'t d3 \<Rightarrow> 't \<Rightarrow> real list \<Rightarrow> (nat \<rightharpoonup> nat) \<Rightarrow> nat \<times> cell \<Rightarrow> cell" where
  "linkNeighbors lib v coords pointIndexToCell c =
     (let neighborIndices = voronoi_neighbors lib v coords (fst c)
      in (snd c)\<lparr>neighbors :=
            map the (filter (\<lambda>neighbor. neighbor \<noteq> None) (map pointIndexToCell neighborIndices))\<rparr>)"

text \<open>The buffer and the tessellation after the relaxation.\<close>

definition relaxed :: "'t d3 \<Rightarrow> real \<Rightarrow> real \<Rightarrow> point list \<Rightarrow> nat \<Rightarrow> real \<Rightarrow> real list \<times> 't" where
  "relaxed lib width height pts relaxIterations relaxationFactor =
     (let coords = delaunay_points (map (\<lambda>point. (px point, py point)) pts);
          voronoi = delaunay_voronoi lib coords (0, 0, width, height)
      in relax lib relaxationFactor relaxIterations (coords, voronoi))"

definition createVoronoiDiagram ::
    "'t d3 \<Rightarrow> real \<Rightarrow> real \<Rightarrow> point list \<Rightarrow> nat \<Rightarrow> real \<Rightarrow> diagram" where
  "createVoronoiDiagram lib width height pts relaxIterations relaxationFactor =
     (let (coords, voronoi) = relaxed lib width height pts relaxIterations relaxationFactor;
          (cs, pointIndexToCell) = buildCells lib voronoi coords 0 ([], Map.empty)
      in \<lparr>cells = map (linkNeighbors lib voronoi coords pointIndexToCell) cs,
          diagramPoints = collectPoints coords 0\<rparr>)"

section \<open>poissonDisc.js, in exact arithmetic\<close>

text \<open>
  The functions of \<^verbatim>\<open>poissonDisc\<close> as their formulas read, with no rounding.
  The options \<^verbatim>\<open>width\<close>, \<^verbatim>\<open>height\<close>, \<^verbatim>\<open>radius\<close> and \<^verbatim>\<open>maxAttempts\<close> are arguments
  of every function of the model. The variables the closures of the source share are the
  fields of \<open>sampler\<close>. The array \<^verbatim>\<open>grid\<close> is a map from indices to entries: a write at
  any integer index stores the entry, and an index that holds nothing reads as
  \<^verbatim>\<open>undefined\<close> (\<open>None\<close>).
\<close>

record sampler =
  points :: "point list"
  active :: "nat list"
  grid :: "int \<rightharpoonup> int"
  prng :: prng

definition cellSize :: "real \<Rightarrow> real" where
  "cellSize radius = radius / sqrt 2"

definition gridWidth :: "real \<Rightarrow> real \<Rightarrow> int" where
  "gridWidth width radius = \<lceil>width / cellSize radius\<rceil>"

definition gridHeight :: "real \<Rightarrow> real \<Rightarrow> int" where
  "gridHeight height radius = \<lceil>height / cellSize radius\<rceil>"

text \<open>
  \<^verbatim>\<open>new Array(n).fill(-1)\<close>: a length that is negative or above \<open>2^32 - 1\<close> throws a
  RangeError.
\<close>

definition newGrid :: "int \<Rightarrow> js_error + (int \<rightharpoonup> int)" where
  "newGrid n =
     (if n < 0 \<or> 4294967295 < n then Inl RangeError
      else Inr (\<lambda>k. if 0 \<le> k \<and> k < n then Some (- 1) else None))"

definition gridIndex :: "real \<Rightarrow> real \<Rightarrow> real \<Rightarrow> real \<Rightarrow> int" where
  "gridIndex width radius x y =
     (let col = \<lfloor>x / cellSize radius\<rfloor>;
          row = \<lfloor>y / cellSize radius\<rfloor>
      in row * gridWidth width radius + col)"

text \<open>
  The body of the two nested loops of \<^verbatim>\<open>isValid\<close>, over the grid indices in the order
  the loops visit them. An entry that is \<^verbatim>\<open>undefined\<close> is different from \<open>-1\<close>, and
  reading a property of the \<^verbatim>\<open>undefined\<close> point throws a TypeError.
\<close>

fun scanCells :: "real \<Rightarrow> point list \<Rightarrow> (int \<rightharpoonup> int) \<Rightarrow> real \<Rightarrow> real \<Rightarrow> int list
    \<Rightarrow> js_error + bool" where
  "scanCells radius pts g x y [] = Inr True"
| "scanCells radius pts g x y (idx # rest) =
     (case g idx of
        None \<Rightarrow> Inl TypeError
      | Some pointIdx \<Rightarrow>
          if pointIdx \<noteq> - 1 then
            (if 0 \<le> pointIdx \<and> nat pointIdx < length pts then
               (let other = pts ! nat pointIdx;
                    dx = px other - x;
                    dy = py other - y;
                    distSq = dx * dx + dy * dy
                in if distSq < radius * radius then Inr False
                   else scanCells radius pts g x y rest)
             else Inl TypeError)
          else scanCells radius pts g x y rest)"

definition isValid :: "real \<Rightarrow> real \<Rightarrow> real \<Rightarrow> point list \<Rightarrow> (int \<rightharpoonup> int) \<Rightarrow> real \<Rightarrow> real
    \<Rightarrow> js_error + bool" where
  "isValid width height radius pts g x y =
     (if x < 0 \<or> width \<le> x \<or> y < 0 \<or> height \<le> y then Inr False
      else (let col = \<lfloor>x / cellSize radius\<rfloor>;
                row = \<lfloor>y / cellSize radius\<rfloor>;
                minCol = max 0 (col - 2);
                maxCol = min (gridWidth width radius - 1) (col + 2);
                minRow = max 0 (row - 2);
                maxRow = min (gridHeight height radius - 1) (row + 2)
            in scanCells radius pts g x y
                 (concat (map (\<lambda>r. map (\<lambda>c. r * gridWidth width radius + c) [minCol..maxCol])
                            [minRow..maxRow]))))"

definition addPoint :: "real \<Rightarrow> real \<Rightarrow> real \<Rightarrow> real \<Rightarrow> sampler \<Rightarrow> sampler" where
  "addPoint width radius x y s =
     (let point = \<lparr>px = x, py = y\<rparr>;
          idx = length (points s)
      in s\<lparr>points := points s @ [point],
           active := active s @ [idx],
           grid := (grid s)(gridIndex width radius x y \<mapsto> int idx)\<rparr>)"

definition randomPointAround :: "real \<Rightarrow> point \<Rightarrow> prng \<Rightarrow> point \<times> prng" where
  "randomPointAround radius point g =
     (let angle = shd g * pi * 2;
          r = radius + shd (stl g) * radius
      in (\<lparr>px = px point + cos angle * r, py = py point + sin angle * r\<rparr>, stl (stl g)))"

text \<open>
  The loop over the attempts, by the number of attempts left. The result is the flag
  \<^verbatim>\<open>found\<close> and the new state. The active point is \<open>None\<close> when the source read it
  outside an array (\<^verbatim>\<open>undefined\<close>): \<^verbatim>\<open>randomPointAround\<close> then throws a TypeError.
\<close>

fun attempts :: "real \<Rightarrow> real \<Rightarrow> real \<Rightarrow> point option \<Rightarrow> nat \<Rightarrow> sampler
    \<Rightarrow> js_error + bool \<times> sampler" where
  "attempts width height radius point 0 s = Inr (False, s)"
| "attempts width height radius point (Suc n) s =
     (case point of
        None \<Rightarrow> Inl TypeError
      | Some p \<Rightarrow>
          (let candidate = fst (randomPointAround radius p (prng s));
               s1 = s\<lparr>prng := snd (randomPointAround radius p (prng s))\<rparr>
           in case isValid width height radius (points s1) (grid s1) (px candidate) (py candidate) of
                Inl e \<Rightarrow> Inl e
              | Inr ok \<Rightarrow>
                  if ok then Inr (True, addPoint width radius (px candidate) (py candidate) s1)
                  else attempts width height radius point n s1))"

text \<open>
  \<^verbatim>\<open>xs.splice(start, 1)\<close>: a negative start counts from the end, a start beyond the
  length removes nothing.
\<close>

definition splice1 :: "nat list \<Rightarrow> int \<Rightarrow> nat list" where
  "splice1 xs start =
     (let len = int (length xs);
          k = (if start < 0 then max (len + start) 0 else min start len)
      in take (nat k) xs @ drop (nat k + 1) xs)"

text \<open>One round of the loop \<^verbatim>\<open>while (active.length > 0)\<close>.\<close>

definition iteration :: "real \<Rightarrow> real \<Rightarrow> real \<Rightarrow> nat \<Rightarrow> sampler \<Rightarrow> js_error + sampler" where
  "iteration width height radius maxAttempts s =
     (let activeIdx = \<lfloor>shd (prng s) * real (length (active s))\<rfloor>;
          s1 = s\<lparr>prng := stl (prng s)\<rparr>;
          pointIdx = (if 0 \<le> activeIdx \<and> nat activeIdx < length (active s)
                      then Some (active s ! nat activeIdx) else None);
          point = (case pointIdx of
                     None \<Rightarrow> None
                   | Some k \<Rightarrow> if k < length (points s) then Some (points s ! k) else None)
      in case attempts width height radius point maxAttempts s1 of
           Inl e \<Rightarrow> Inl e
         | Inr r \<Rightarrow>
             Inr (if fst r then snd r
                  else (snd r)\<lparr>active := splice1 (active (snd r)) activeIdx\<rparr>))"

text \<open>
  The loop, with a bound on the number of its rounds: \<open>None\<close> when the active list is
  not empty after that many rounds.
\<close>

fun whileActive :: "real \<Rightarrow> real \<Rightarrow> real \<Rightarrow> nat \<Rightarrow> nat \<Rightarrow> sampler
    \<Rightarrow> (js_error + point list) option" where
  "whileActive width height radius maxAttempts 0 s =
     (if active s = [] then Some (Inr (points s)) else None)"
| "whileActive width height radius maxAttempts (Suc fuel) s =
     (if active s = [] then Some (Inr (points s))
      else (case iteration width height radius maxAttempts s of
              Inl e \<Rightarrow> Some (Inl e)
            | Inr s' \<Rightarrow> whileActive width height radius maxAttempts fuel s'))"

text \<open>
  \<^verbatim>\<open>poissonDisc\<close>. With a radius of zero the cell size is zero, the two quotients
  \<^verbatim>\<open>width / cellSize\<close> and \<^verbatim>\<open>height / cellSize\<close> are infinite or \<^verbatim>\<open>NaN\<close>, and so is
  their product: the allocation of the grid throws a RangeError.
\<close>

definition poissonDisc :: "real \<Rightarrow> real \<Rightarrow> real \<Rightarrow> nat \<Rightarrow> prng \<Rightarrow> nat
    \<Rightarrow> (js_error + point list) option" where
  "poissonDisc width height radius maxAttempts g fuel =
     (if radius = 0 then Some (Inl RangeError)
      else (case newGrid (gridWidth width radius * gridHeight height radius) of
              Inl e \<Rightarrow> Some (Inl e)
            | Inr grid0 \<Rightarrow>
                (let startX = shd g * width;
                     startY = shd (stl g) * height
                 in whileActive width height radius maxAttempts fuel
                      (addPoint width radius startX startY
                         \<lparr>points = [], active = [], grid = grid0, prng = stl (stl g)\<rparr>))))"

section \<open>Binary64 arithmetic\<close>

text \<open>
  A JavaScript number is a binary64 floating-point number. A finite one is a real
  number \<open>m * 2^e\<close> with an integer \<open>m\<close> of at most 53 bits and \<open>e \<ge> -1074\<close>, and the
  result of an arithmetic operation is the exact result rounded to the nearest such
  number, a tie going to the even \<open>m\<close>. \<open>fl64 v\<close> is this rounding of the real number
  \<open>v\<close>: around \<open>v\<close> the numbers are \<open>2^(ulp_exponent v)\<close> apart. A result beyond the
  largest finite number becomes \<^verbatim>\<open>Infinity\<close> in the source; \<open>fl64\<close> does not model
  that, and the runs below stay far from it.
\<close>

definition pow2 :: "int \<Rightarrow> real" where
  "pow2 e = (if 0 \<le> e then 2 ^ nat e else 1 / 2 ^ nat (- e))"

definition ulp_exponent :: "real \<Rightarrow> int" where
  "ulp_exponent v = max (\<lfloor>log 2 \<bar>v\<bar>\<rfloor> - 52) (- 1074)"

definition round_ties_even :: "real \<Rightarrow> int" where
  "round_ties_even v =
     (let n = \<lfloor>v\<rfloor>; d = v - of_int n
      in if d < 1 / 2 then n else if 1 / 2 < d then n + 1 else if even n then n else n + 1)"

definition fl64 :: "real \<Rightarrow> real" where
  "fl64 v =
     (if v = 0 then 0
      else of_int (round_ties_even (v / pow2 (ulp_exponent v))) * pow2 (ulp_exponent v))"

text \<open>
  \<^verbatim>\<open>Math.SQRT2\<close> and \<^verbatim>\<open>Math.PI\<close> are the binary64 numbers
  \<open>1.4142135623730951\<close> and \<open>3.141592653589793\<close>. \<^verbatim>\<open>Math.cos\<close> and \<^verbatim>\<open>Math.sin\<close> are
  taken as the rounded cosine and sine; the runs below call them at \<open>0\<close> only, where
  they return \<open>1\<close> and \<open>0\<close>.
\<close>

definition Math_SQRT2 :: real where
  "Math_SQRT2 = 6369051672525773 / 4503599627370496"

definition Math_PI :: real where
  "Math_PI = 884279719003555 / 281474976710656"

definition Math_cos :: "real \<Rightarrow> real" where
  "Math_cos v = fl64 (cos v)"

definition Math_sin :: "real \<Rightarrow> real" where
  "Math_sin v = fl64 (sin v)"

section \<open>poissonDisc.js, in binary64 arithmetic\<close>

text \<open>
  The functions of \<^verbatim>\<open>poissonDisc\<close> once more, as the runtime computes them: every
  arithmetic operation of the source is followed by the rounding \<open>fl64\<close>, in the order
  in which the source evaluates its expressions. The arguments \<^verbatim>\<open>width\<close>, \<^verbatim>\<open>height\<close>
  and \<^verbatim>\<open>radius\<close> and the numbers of the generator are binary64 numbers. Comparisons,
  \<^verbatim>\<open>Math.floor\<close> and \<^verbatim>\<open>Math.ceil\<close> are exact on binary64 numbers, the indices are
  integers, and the state is the record \<open>sampler\<close> as before.
\<close>

definition cellSize_f64 :: "real \<Rightarrow> real" where
  "cellSize_f64 radius = fl64 (radius / Math_SQRT2)"

definition gridWidth_f64 :: "real \<Rightarrow> real \<Rightarrow> int" where
  "gridWidth_f64 width radius = \<lceil>fl64 (width / cellSize_f64 radius)\<rceil>"

definition gridHeight_f64 :: "real \<Rightarrow> real \<Rightarrow> int" where
  "gridHeight_f64 height radius = \<lceil>fl64 (height / cellSize_f64 radius)\<rceil>"

definition gridIndex_f64 :: "real \<Rightarrow> real \<Rightarrow> real \<Rightarrow> real \<Rightarrow> int" where
  "gridIndex_f64 width radius x y =
     (let col = \<lfloor>fl64 (x / cellSize_f64 radius)\<rfloor>;
          row = \<lfloor>fl64 (y / cellSize_f64 radius)\<rfloor>
      in row * gridWidth_f64 width radius + col)"

fun scanCells_f64 :: "real \<Rightarrow> point list \<Rightarrow> (int \<rightharpoonup> int) \<Rightarrow> real \<Rightarrow> real \<Rightarrow> int list
    \<Rightarrow> js_error + bool" where
  "scanCells_f64 radius pts g x y [] = Inr True"
| "scanCells_f64 radius pts g x y (idx # rest) =
     (case g idx of
        None \<Rightarrow> Inl TypeError
      | Some pointIdx \<Rightarrow>
          if pointIdx \<noteq> - 1 then
            (if 0 \<le> pointIdx \<and> nat pointIdx < length pts then
               (let other = pts ! nat pointIdx;
                    dx = fl64 (px other - x);
                    dy = fl64 (py other - y);
                    distSq = fl64 (fl64 (dx * dx) + fl64 (dy * dy))
                in if distSq < fl64 (radius * radius) then Inr False
                   else scanCells_f64 radius pts g x y rest)
             else Inl TypeError)
          else scanCells_f64 radius pts g x y rest)"

definition isValid_f64 :: "real \<Rightarrow> real \<Rightarrow> real \<Rightarrow> point list \<Rightarrow> (int \<rightharpoonup> int) \<Rightarrow> real \<Rightarrow> real
    \<Rightarrow> js_error + bool" where
  "isValid_f64 width height radius pts g x y =
     (if x < 0 \<or> width \<le> x \<or> y < 0 \<or> height \<le> y then Inr False
      else (let col = \<lfloor>fl64 (x / cellSize_f64 radius)\<rfloor>;
                row = \<lfloor>fl64 (y / cellSize_f64 radius)\<rfloor>;
                minCol = max 0 (col - 2);
                maxCol = min (gridWidth_f64 width radius - 1) (col + 2);
                minRow = max 0 (row - 2);
                maxRow = min (gridHeight_f64 height radius - 1) (row + 2)
            in scanCells_f64 radius pts g x y
                 (concat (map (\<lambda>r. map (\<lambda>c. r * gridWidth_f64 width radius + c) [minCol..maxCol])
                            [minRow..maxRow]))))"

definition addPoint_f64 :: "real \<Rightarrow> real \<Rightarrow> real \<Rightarrow> real \<Rightarrow> sampler \<Rightarrow> sampler" where
  "addPoint_f64 width radius x y s =
     (let point = \<lparr>px = x, py = y\<rparr>;
          idx = length (points s)
      in s\<lparr>points := points s @ [point],
           active := active s @ [idx],
           grid := (grid s)(gridIndex_f64 width radius x y \<mapsto> int idx)\<rparr>)"

definition randomPointAround_f64 :: "real \<Rightarrow> point \<Rightarrow> prng \<Rightarrow> point \<times> prng" where
  "randomPointAround_f64 radius point g =
     (let angle = fl64 (fl64 (shd g * Math_PI) * 2);
          r = fl64 (radius + fl64 (shd (stl g) * radius))
      in (\<lparr>px = fl64 (px point + fl64 (Math_cos angle * r)),
           py = fl64 (py point + fl64 (Math_sin angle * r))\<rparr>, stl (stl g)))"

fun attempts_f64 :: "real \<Rightarrow> real \<Rightarrow> real \<Rightarrow> point option \<Rightarrow> nat \<Rightarrow> sampler
    \<Rightarrow> js_error + bool \<times> sampler" where
  "attempts_f64 width height radius point 0 s = Inr (False, s)"
| "attempts_f64 width height radius point (Suc n) s =
     (case point of
        None \<Rightarrow> Inl TypeError
      | Some p \<Rightarrow>
          (let candidate = fst (randomPointAround_f64 radius p (prng s));
               s1 = s\<lparr>prng := snd (randomPointAround_f64 radius p (prng s))\<rparr>
           in case isValid_f64 width height radius (points s1) (grid s1)
                     (px candidate) (py candidate) of
                Inl e \<Rightarrow> Inl e
              | Inr ok \<Rightarrow>
                  if ok then Inr (True, addPoint_f64 width radius (px candidate) (py candidate) s1)
                  else attempts_f64 width height radius point n s1))"

definition iteration_f64 :: "real \<Rightarrow> real \<Rightarrow> real \<Rightarrow> nat \<Rightarrow> sampler \<Rightarrow> js_error + sampler" where
  "iteration_f64 width height radius maxAttempts s =
     (let activeIdx = \<lfloor>fl64 (shd (prng s) * real (length (active s)))\<rfloor>;
          s1 = s\<lparr>prng := stl (prng s)\<rparr>;
          pointIdx = (if 0 \<le> activeIdx \<and> nat activeIdx < length (active s)
                      then Some (active s ! nat activeIdx) else None);
          point = (case pointIdx of
                     None \<Rightarrow> None
                   | Some k \<Rightarrow> if k < length (points s) then Some (points s ! k) else None)
      in case attempts_f64 width height radius point maxAttempts s1 of
           Inl e \<Rightarrow> Inl e
         | Inr r \<Rightarrow>
             Inr (if fst r then snd r
                  else (snd r)\<lparr>active := splice1 (active (snd r)) activeIdx\<rparr>))"

fun whileActive_f64 :: "real \<Rightarrow> real \<Rightarrow> real \<Rightarrow> nat \<Rightarrow> nat \<Rightarrow> sampler
    \<Rightarrow> (js_error + point list) option" where
  "whileActive_f64 width height radius maxAttempts 0 s =
     (if active s = [] then Some (Inr (points s)) else None)"
| "whileActive_f64 width height radius maxAttempts (Suc fuel) s =
     (if active s = [] then Some (Inr (points s))
      else (case iteration_f64 width height radius maxAttempts s of
              Inl e \<Rightarrow> Some (Inl e)
            | Inr s' \<Rightarrow> whileActive_f64 width height radius maxAttempts fuel s'))"

text \<open>
  \<^verbatim>\<open>poissonDisc\<close>. When the cell size is zero the two quotients are infinite or
  \<^verbatim>\<open>NaN\<close> and the allocation of the grid throws a RangeError, as in exact arithmetic.
  The result is \<open>None\<close> when the active list is not empty after \<open>fuel\<close> rounds of the
  loop.
\<close>

definition poissonDisc_f64 :: "real \<Rightarrow> real \<Rightarrow> real \<Rightarrow> nat \<Rightarrow> prng \<Rightarrow> nat
    \<Rightarrow> (js_error + point list) option" where
  "poissonDisc_f64 width height radius maxAttempts g fuel =
     (if cellSize_f64 radius = 0 then Some (Inl RangeError)
      else (case newGrid (gridWidth_f64 width radius * gridHeight_f64 height radius) of
              Inl e \<Rightarrow> Some (Inl e)
            | Inr grid0 \<Rightarrow>
                (let startX = fl64 (shd g * width);
                     startY = fl64 (shd (stl g) * height)
                 in whileActive_f64 width height radius maxAttempts fuel
                      (addPoint_f64 width radius startX startY
                         \<lparr>points = [], active = [], grid = grid0, prng = stl (stl g)\<rparr>))))"

section \<open>Definitions used in the statements\<close>

text \<open>
  The inner circle radius as the specification words it: the vertices sorted by
  ascending angle around the centroid, every pair of consecutive vertices in that order
  and the wraparound pair (last, first), the minimum of the distances from the centroid
  to these edges; \<open>0\<close> for fewer than two vertices.
\<close>

definition spec_edges :: "vec list \<Rightarrow> (vec \<times> vec) list" where
  "spec_edges s = zip s (tl s) @ [(last s, hd s)]"

definition spec_innerCircleRadius :: "vec \<Rightarrow> vec list \<Rightarrow> real" where
  "spec_innerCircleRadius c pts =
     (if length pts < 2 then 0
      else Min (set (map (\<lambda>e. distToSegment c (fst e) (snd e))
                  (spec_edges (sort_key (\<lambda>p. atan2 (snd p - snd c) (fst p - fst c)) pts)))))"

text \<open>The sites below \<open>n\<close> that have a polygon in the tessellation \<open>v\<close>, in ascending order.\<close>

definition builtIndices :: "'t d3 \<Rightarrow> 't \<Rightarrow> real list \<Rightarrow> nat \<Rightarrow> nat list" where
  "builtIndices lib v coords n =
     filter (\<lambda>i. voronoi_cellPolygon lib v coords i \<noteq> None) [0..<n]"

text \<open>The sites that have a polygon in the final tessellation of a call.\<close>

definition cellIndices :: "'t d3 \<Rightarrow> real \<Rightarrow> real \<Rightarrow> point list \<Rightarrow> nat \<Rightarrow> real \<Rightarrow> nat list" where
  "cellIndices lib width height pts relaxIterations relaxationFactor =
     (let r = relaxed lib width height pts relaxIterations relaxationFactor
      in builtIndices lib (snd r) (fst r) (length pts))"

text \<open>
  The map \<open>m\<close> sends exactly the point index of the cell at each position of \<open>cs\<close> to
  that position.
\<close>

definition index_map :: "(nat \<times> 'a) list \<Rightarrow> (nat \<rightharpoonup> nat) \<Rightarrow> bool" where
  "index_map cs m = (\<forall>k p. m k = Some p \<longleftrightarrow> p < length cs \<and> fst (cs ! p) = k)"

text \<open>
  An example of a tessellation library, for concrete runs of the model. Its state is the
  clip rectangle. Every site but site 1 has the whole rectangle as its polygon, in the
  form in which d3-delaunay documents the result of \<^verbatim>\<open>cellPolygon\<close>: a closed polygon,
  the first vertex repeated at the end (for a single site this is what d3-delaunay
  returns). Site 1 has no polygon. The neighbours of a site are all the other sites, and
  the centroid of every polygon is the point \<open>(1, 1)\<close>, a finite one.
\<close>

definition box_d3 :: "(real \<times> real \<times> real \<times> real) d3" where
  "box_d3 =
     \<lparr>delaunay_voronoi = (\<lambda>coords box. box),
      voronoi_update = (\<lambda>v coords. v),
      voronoi_cellPolygon = (\<lambda>v coords i.
         case v of (x0, y0, x1, y1) \<Rightarrow>
           if i = 1 then None else Some [(x1, y0), (x1, y1), (x0, y1), (x0, y0), (x1, y0)]),
      voronoi_neighbors = (\<lambda>v coords i. filter (\<lambda>j. j \<noteq> i) [0..<length coords div 2]),
      polygonCentroid = (\<lambda>pts. (1, 1)),
      polygonCentroid_finite = (\<lambda>pts. True)\<rparr>"



text \<open>The point lies in the sampling area.\<close>

definition in_area :: "real \<Rightarrow> real \<Rightarrow> point \<Rightarrow> bool" where
  "in_area width height p = (0 \<le> px p \<and> px p < width \<and> 0 \<le> py p \<and> py p < height)"

text \<open>
  The invariant of the state of the sampler: every accepted point lies in the area and
  is the entry of its own grid cell; every entry of the grid is \<open>-1\<close> or the index of an
  accepted point; every index of the initial grid holds an entry; two accepted points
  are at least \<open>radius\<close> apart; the active indices are indices of accepted points; the
  generator yields numbers in \<open>[0, 1)\<close>.
\<close>

definition sampler_inv :: "real \<Rightarrow> real \<Rightarrow> real \<Rightarrow> sampler \<Rightarrow> bool" where
  "sampler_inv width height radius s =
     ((\<forall>i < length (points s).
          in_area width height (points s ! i)
          \<and> grid s (gridIndex width radius (px (points s ! i)) (py (points s ! i))) = Some (int i))
      \<and> (\<forall>k v. grid s k = Some v \<longrightarrow> v = - 1 \<or> (0 \<le> v \<and> nat v < length (points s)))
      \<and> (\<forall>k. 0 \<le> k \<and> k < gridWidth width radius * gridHeight height radius \<longrightarrow> grid s k \<noteq> None)
      \<and> (\<forall>i < length (points s). \<forall>j < length (points s).
            i \<noteq> j \<longrightarrow> radius * radius \<le> distanceSquared (points s ! i) (points s ! j))
      \<and> (\<forall>a \<in> set (active s). a < length (points s))
      \<and> (\<forall>u \<in> sset (prng s). 0 \<le> u \<and> u < 1))"

text \<open>
  An example run in exact arithmetic: a generator that starts with \<open>0, 0\<close> and then repeats
  \<open>0, 0, sqrt 2 - 1\<close>, and the initial grid of five cells.
\<close>

definition example_prng :: prng where
  "example_prng = 0 ## 0 ## cycle [0, 0, sqrt 2 - 1]"

definition example_grid :: "int \<rightharpoonup> int" where
  "example_grid = (\<lambda>k. if 0 \<le> k \<and> k < 5 then Some (- 1) else None)"

text \<open>
  Two runs in binary64 arithmetic, in the square of side \<open>1\<close> with one attempt for each
  active point. The radius is the number \<open>0.1414213562373095\<close>: the cell size is then
  \<open>0.09999999999999999\<close> and the grid has \<open>10 * 10\<close> cells. The generator starts with
  \<open>0.85\<close> and \<open>0.5\<close>, so the seed point is \<open>(0.85, 0.5)\<close>, in the cell of index \<open>58\<close>.
  With the numbers \<open>0\<close> (the active index), \<open>0\<close> (the angle) and
  \<open>0.06066017177982039\<close> (the distance) a round proposes the point
  \<open>(0.9999999999999999, 0.5)\<close>, and with the distance number \<open>3 / 128\<close> the point
  \<open>(0.9947359192741214, 0.5)\<close>. All these numbers are written as the fractions they are.
\<close>

definition run_radius :: real where
  "run_radius = 2547620669010309 / 18014398509481984"

definition run_draw :: real where
  "run_draw = 2185513016190635 / 36028797018963968"

definition seed_point :: point where
  "seed_point = \<lparr>px = 7656119366529843 / 9007199254740992, py = 1 / 2\<rparr>"

definition edge_point :: point where
  "edge_point = \<lparr>px = 9007199254740991 / 9007199254740992, py = 1 / 2\<rparr>"

definition near_point :: point where
  "near_point = \<lparr>px = 4479892315374981 / 4503599627370496, py = 1 / 2\<rparr>"

definition run_grid :: "int \<rightharpoonup> int" where
  "run_grid = (\<lambda>k. if 0 \<le> k \<and> k < 100 then Some (- 1) else None)"

text \<open>
  The generator of the first run repeats \<open>0, 0, 0.06066017177982039\<close> after the seed
  point. The generator of the second run gives these three numbers once, then
  \<open>0, 0, 3 / 128\<close>, and then repeats \<open>0, 0, 0.5\<close>.
\<close>

definition loop_prng :: prng where
  "loop_prng = (7656119366529843 / 9007199254740992) ## (1 / 2) ## cycle [0, 0, run_draw]"

definition close_prng :: prng where
  "close_prng = (7656119366529843 / 9007199254740992) ## (1 / 2) ## 0 ## 0 ## run_draw
     ## 0 ## 0 ## (3 / 128) ## cycle [0, 0, 1 / 2]"

text \<open>
  The states of the first run: the seed point is the first point and the first active
  index, the cell \<open>58\<close> holds the seed point, the other cells that the scan around the
  proposed point reads are empty, and the generator is at the start of its period.
\<close>

definition loop_inv :: "sampler \<Rightarrow> bool" where
  "loop_inv s \<longleftrightarrow>
     (\<exists>rest. points s = seed_point # rest) \<and> (\<exists>rest. active s = 0 # rest)
     \<and> grid s 58 = Some 0
     \<and> (\<forall>k \<in> set [38, 39, 48, 49, 59, 68, 69, 78, 79]. grid s k = Some (- 1))
     \<and> prng s = cycle [0, 0, run_draw]"

text \<open>Three sites in a box of side 4, and the closed square of side 2 centred at \<open>(1, 1)\<close>.\<close>

definition three_sites :: "point list" where
  "three_sites = [\<lparr>px = 1, py = 1\<rparr>, \<lparr>px = 3, py = 1\<rparr>, \<lparr>px = 2, py = 3\<rparr>]"

definition closed_square :: "vec list" where
  "closed_square = [(2, 0), (2, 2), (0, 2), (0, 0), (2, 0)]"

section \<open>Properties of map and random\<close>

text \<open>
  Claim C9. With a zero-width input range (\<open>start1 = end1\<close>) \<^verbatim>\<open>map\<close> returns \<open>start2\<close>
  itself and divides nothing; with \<open>start1 \<noteq> end1\<close> the divisor is not zero, the division
  is defined, and the result is the value of the formula.
\<close>

theorem map_js_zero_width:
  "(start1 = end1 \<longrightarrow> map_js n start1 end1 start2 end2 = Some start2) \<and>
   (start1 \<noteq> end1 \<longrightarrow> js_div (n - start1) (end1 - start1) \<noteq> None \<and>
      map_js n start1 end1 start2 end2
        = Some ((n - start1) / (end1 - start1) * (end2 - start2) + start2))"
  by (simp add: map_js_def js_div_def)

theorem map_js_zero_width_witness:
  "map_js 5 3 3 7 9 = Some 7 \<and> map_js 50 0 100 0 1 = Some (1 / 2)"
  using map_js_zero_width [of 3 3 5 7 9] map_js_zero_width [of 0 100 50 0 1]
  by simp

lemma js_round_index:
  assumes "0 \<le> u" "u < 1" "0 < n"
  shows "0 \<le> js_round (u * (real n - 1 - 0) + 0)
    \<and> js_round (u * (real n - 1 - 0) + 0) \<le> int n - 1"
proof -
  have n1: "0 \<le> real n - 1" using assms by simp
  have lo: "0 \<le> u * (real n - 1)" using assms n1 by simp
  have hi: "u * (real n - 1) \<le> real n - 1"
    using assms n1 by (simp add: mult_left_le_one_le)
  have "\<lfloor>u * (real n - 1) + 1 / 2\<rfloor> \<le> int n - 1"
  proof -
    have "u * (real n - 1) + 1 / 2 < real_of_int (int n)" using hi by simp
    then have "\<lfloor>u * (real n - 1) + 1 / 2\<rfloor> < int n" by (simp only: floor_less_iff)
    then show ?thesis by simp
  qed
  moreover have "0 \<le> \<lfloor>u * (real n - 1) + 1 / 2\<rfloor>" using lo by simp
  ultimately show ?thesis by (simp add: js_round_def)
qed

text \<open>
  Claim C10. For a non-empty array \<open>a\<close> and a generator whose next number is in
  \<open>[0, 1)\<close>, the index \<^verbatim>\<open>random(0, a.length - 1, true)\<close> is an integer \<open>k\<close> with
  \<open>0 \<le> k \<le> a.length - 1\<close>, and \<^verbatim>\<open>random(a)\<close> returns the element of \<open>a\<close> at
  \<open>k\<close>, never \<^verbatim>\<open>undefined\<close>.
\<close>

theorem random_js_array_element:
  assumes "a \<noteq> []" and "0 \<le> shd g" and "shd g < 1"
  shows "\<exists>k. 0 \<le> k \<and> k \<le> int (length a) - 1
    \<and> fst (random_js (Range 0) (real (length a) - 1) True g) = (Number (of_int k) :: 'a random_res)
    \<and> random_js (Array a) mx toInteger g = (Element (a ! nat k), stl g)
    \<and> a ! nat k \<in> set a"
proof -
  let ?k = "js_round (shd g * (real (length a) - 1 - 0) + 0)"
  have n: "0 < length a" using assms(1) by simp
  have b: "0 \<le> ?k \<and> ?k \<le> int (length a) - 1"
    using js_round_index [OF assms(2) assms(3) n] .
  then have lt: "nat ?k < length a" by linarith
  have "random_js (Array a) mx toInteger g = (Element (a ! nat ?k), stl g)"
    using b by (simp add: Let_def)
  moreover have "fst (random_js (Range 0) (real (length a) - 1) True g)
      = (Number (of_int ?k) :: 'a random_res)"
    by (simp add: Let_def)
  moreover have "a ! nat ?k \<in> set a" using lt by simp
  ultimately show ?thesis using b by blast
qed

theorem random_js_array_element_witness:
  "\<exists>k. 0 \<le> k \<and> k \<le> int (length [10, 20, 30 :: nat]) - 1
    \<and> fst (random_js (Range 0) (real (length [10, 20, 30 :: nat]) - 1) True (sconst (1 / 2)))
        = (Number (of_int k) :: nat random_res)
    \<and> random_js (Array [10, 20, 30 :: nat]) 0 False (sconst (1 / 2))
        = (Element ([10, 20, 30] ! nat k), stl (sconst (1 / 2)))
    \<and> [10, 20, 30] ! nat k \<in> set [10, 20, 30 :: nat]"
  using random_js_array_element [of "[10, 20, 30 :: nat]" "sconst (1 / 2)" 0 False]
  by simp

section \<open>The inner circle radius\<close>

lemma Min_insert_smaller:
  assumes "finite S" and "(b::real) < a"
  shows "Min (insert a (insert b S)) = Min (insert b S)"
proof -
  have "Min (insert b S) \<le> b" using assms(1) by simp
  then have "min a (Min (insert b S)) = Min (insert b S)" using assms(2) by simp
  moreover have "Min (insert a (insert b S)) = min a (Min (insert b S))"
    using assms(1) by (intro Min_insert) simp_all
  ultimately show ?thesis by simp
qed

lemma Min_insert_larger:
  assumes "finite S" and "\<not> (b::real) < a"
  shows "Min (insert a (insert b S)) = Min (insert a S)"
proof -
  have "Min (insert a S) \<le> a" using assms(1) by simp
  then have "min b (Min (insert a S)) = Min (insert a S)" using assms(2) by simp
  moreover have "Min (insert b (insert a S)) = min b (Min (insert a S))"
    using assms(1) by (intro Min_insert) simp_all
  moreover have "insert a (insert b S) = insert b (insert a S)" by blast
  ultimately show ?thesis by simp
qed

lemma fold_closest:
  "fold (\<lambda>i closest. if less_num (f i) closest then Finite (f i) else closest) xs acc =
     (case acc of
        Infinity \<Rightarrow> if xs = [] then Infinity else Finite (Min (f ` set xs))
      | Finite a \<Rightarrow> Finite (Min (insert a (f ` set xs))))"
proof (induction xs arbitrary: acc)
  case Nil
  then show ?case by (cases acc) simp_all
next
  case (Cons i xs)
  show ?case
  proof (cases acc)
    case Infinity
    then show ?thesis using Cons.IH [of "Finite (f i)"] by simp
  next
    case (Finite a)
    show ?thesis
    proof (cases "f i < a")
      case True
      then show ?thesis
        using Finite Cons.IH [of "Finite (f i)"] Min_insert_smaller [of "f ` set xs" "f i" a]
        by simp
    next
      case False
      then show ?thesis
        using Finite Cons.IH [of "Finite a"] Min_insert_larger [of "f ` set xs" "f i" a]
        by simp
    qed
  qed
qed

lemma edges_by_index:
  assumes "s \<noteq> []"
  shows "map (\<lambda>i. (s ! i, s ! ((i + 1) mod length s))) [0..<length s] = spec_edges s"
proof (rule nth_equalityI)
  show len: "length (map (\<lambda>i. (s ! i, s ! ((i + 1) mod length s))) [0..<length s]) = length (spec_edges s)"
    using assms by (cases s) (simp_all add: spec_edges_def)
  fix i assume "i < length (map (\<lambda>i. (s ! i, s ! ((i + 1) mod length s))) [0..<length s])"
  then have i: "i < length s" by simp
  show "map (\<lambda>i. (s ! i, s ! ((i + 1) mod length s))) [0..<length s] ! i = spec_edges s ! i"
  proof (cases "i + 1 < length s")
    case True
    then have iz: "i < length (zip s (tl s))" by simp
    then have "zip s (tl s) ! i = (s ! i, tl s ! i)" by (intro nth_zip) simp_all
    then have "spec_edges s ! i = (s ! i, tl s ! i)"
      using iz by (simp add: spec_edges_def nth_append del: length_zip length_tl)
    moreover have "tl s ! i = s ! (i + 1)" using True by (simp add: nth_tl)
    ultimately show ?thesis using i True by simp
  next
    case False
    then have e: "i + 1 = length s" using i by simp
    then have "spec_edges s ! i = (last s, hd s)"
      by (auto simp add: spec_edges_def nth_append)
    moreover have "last s = s ! i"
    proof -
      have "length s - 1 = i" using e by simp
      then show ?thesis using last_conv_nth [OF assms] by simp
    qed
    moreover have "hd s = s ! 0" using assms by (simp add: hd_conv_nth)
    ultimately show ?thesis using i e by simp
  qed
qed

lemma getClosestEdgeToCentroid_spec:
  assumes fin: "polygonCentroid_finite lib pts \<or> length pts < 2"
  shows "getClosestEdgeToCentroid lib pts
    = Finite (spec_innerCircleRadius (polygonCentroid lib pts) pts)"
proof (cases "length pts < 2")
  case True
  then show ?thesis
    by (simp add: getClosestEdgeToCentroid_def spec_innerCircleRadius_def sortPointsByAngle_def)
next
  case False
  define c where "c = polygonCentroid lib pts"
  define s where "s = sortPointsByAngle c pts"
  define f where "f = (\<lambda>i. distToSegment c (s ! i) (s ! ((i + 1) mod length s)))"
  have len: "length s = length pts" by (simp add: s_def sortPointsByAngle_def)
  then have ne: "s \<noteq> []" and n0: "[0..<length s] \<noteq> []" using False by auto
  have "getClosestEdgeToCentroid lib pts
      = fold (\<lambda>i closest. if less_num (f i) closest then Finite (f i) else closest)
          [0..<length s] Infinity"
    unfolding getClosestEdgeToCentroid_def Let_def f_def s_def c_def
    using False len fin by (simp add: s_def c_def)
  also have "\<dots> = Finite (Min (f ` set [0..<length s]))"
    using n0 by (simp only: fold_closest num.case if_False)
  also have "f ` set [0..<length s]
      = set (map (\<lambda>e. distToSegment c (fst e) (snd e))
          (map (\<lambda>i. (s ! i, s ! ((i + 1) mod length s))) [0..<length s]))"
    by (simp add: f_def image_image)
  also have "map (\<lambda>i. (s ! i, s ! ((i + 1) mod length s))) [0..<length s] = spec_edges s"
    using ne by (rule edges_by_index)
  finally show ?thesis
    using False by (simp add: spec_innerCircleRadius_def c_def s_def sortPointsByAngle_def)
qed

lemma box_d3_simps:
  "delaunay_voronoi box_d3 coords box = box"
  "voronoi_update box_d3 v coords = v"
  "voronoi_cellPolygon box_d3 (x0, y0, x1, y1) coords i =
     (if i = 1 then None else Some [(x1, y0), (x1, y1), (x0, y1), (x0, y0), (x1, y0)])"
  "voronoi_neighbors box_d3 v coords i = filter (\<lambda>j. j \<noteq> i) [0..<length coords div 2]"
  "polygonCentroid box_d3 poly = (1, 1)"
  "polygonCentroid_finite box_d3 poly"
  by (simp_all add: box_d3_def)



lemma closed_square_sorted:
  "sortPointsByAngle (1, 1) closed_square = [(0, 0), (2, 0), (2, 0), (2, 2), (0, 2)]"
  using pi_gt_zero
  by (simp add: closed_square_def sortPointsByAngle_def atan2_def arctan_one arctan_minus not_le)

lemma closed_square_distances:
  "distToSegment (1, 1) (0, 0) (2, 0) = 1"
  "distToSegment (1, 1) (2, 0) (2, 0) = sqrt 2"
  "distToSegment (1, 1) (2, 0) (2, 2) = 1"
  "distToSegment (1, 1) (2, 2) (0, 2) = 1"
  "distToSegment (1, 1) (0, 2) (0, 0) = 1"
  by (simp_all add: distToSegment_def distToSegmentSquared_def dist2_def sqr_def Let_def)

lemma closed_square_radius: "spec_innerCircleRadius (1, 1) closed_square = 1"
proof -
  have "length closed_square = 5" by (simp add: closed_square_def)
  then show ?thesis
    using closed_square_sorted
    by (simp add: spec_innerCircleRadius_def spec_edges_def sortPointsByAngle_def
        closed_square_distances)
qed

section \<open>The Voronoi diagram\<close>

declare relaxCells.simps [simp del] collectPoints.simps [simp del] buildCells.simps [simp del]

lemma length_delaunay_points: "length (delaunay_points ps) = 2 * length ps"
  by (induction ps) simp_all

lemma nth_delaunay_points:
  "i < length ps \<Longrightarrow> delaunay_points ps ! (2 * i) = fst (ps ! i)
     \<and> delaunay_points ps ! (2 * i + 1) = snd (ps ! i)"
proof (induction ps arbitrary: i)
  case Nil
  then show ?case by simp
next
  case (Cons p ps)
  then show ?case by (cases i) simp_all
qed

lemma length_relaxCells: "length (relaxCells lib v f coords i) = length coords"
proof (induction lib v f coords i rule: relaxCells.induct)
  case (1 lib v f coords i)
  show ?case
  proof (cases "i < length coords")
    case False
    then show ?thesis by (simp add: relaxCells.simps [of lib v f coords i])
  next
    case True
    show ?thesis
    proof (cases "voronoi_cellPolygon lib v coords (i div 2)")
      case None
      then show ?thesis using True "1.IH"(1) by (simp add: relaxCells.simps [of lib v f coords i])
    next
      case (Some cell)
      then show ?thesis using True "1.IH"(2) by (simp add: relaxCells.simps [of lib v f coords i])
    qed
  qed
qed

lemma length_relax: "length (fst (relax lib f k (coords, v))) = length coords"
  by (induction k arbitrary: coords v) (simp_all add: Let_def length_relaxCells)

lemma length_relaxed:
  "length (fst (relaxed lib width height pts k f)) = 2 * length pts"
  by (simp add: relaxed_def Let_def length_relax length_delaunay_points)

lemma collectPoints_even:
  assumes "length coords = 2 * n"
  shows "j \<le> n \<Longrightarrow> collectPoints coords (2 * j)
    = map (\<lambda>k. \<lparr>px = coords ! (2 * k), py = coords ! (2 * k + 1)\<rparr>) [j..<n]"
proof (induction "n - j" arbitrary: j)
  case 0
  then have "j = n" by simp
  then show ?case using assms by (simp add: collectPoints.simps [of coords "2 * n"])
next
  case (Suc d)
  then have lt: "j < n" and d: "d = n - Suc j" by simp_all
  have "collectPoints coords (2 * j)
      = \<lparr>px = coords ! (2 * j), py = coords ! (2 * j + 1)\<rparr> # collectPoints coords (2 * Suc j)"
    using lt assms by (simp add: collectPoints.simps [of coords "2 * j"])
  also have "collectPoints coords (2 * Suc j)
      = map (\<lambda>k. \<lparr>px = coords ! (2 * k), py = coords ! (2 * k + 1)\<rparr>) [Suc j..<n]"
    using Suc.hyps(1) [OF d] lt by simp
  finally show ?case using lt by (simp add: upt_conv_Cons)
qed

lemma buildCells_step:
  assumes "length coords = 2 * n" and "j < n"
  shows "buildCells lib v coords (2 * j) (cs, m) =
     (case voronoi_cellPolygon lib v coords j of
        None \<Rightarrow> buildCells lib v coords (2 * Suc j) (cs, m)
      | Some cell \<Rightarrow> buildCells lib v coords (2 * Suc j)
          (cs @ [(j, formatCell lib cell)], m(j \<mapsto> length cs)))"
  using assms
  by (simp add: buildCells.simps [of lib v coords "2 * j"] Let_def split: option.split)

lemma buildCells_done:
  assumes "length coords = 2 * n"
  shows "buildCells lib v coords (2 * n) (cs, m) = (cs, m)"
  using assms by (simp add: buildCells.simps [of lib v coords "2 * n"])

lemma fst_buildCells:
  assumes "length coords = 2 * n"
  shows "j \<le> n \<Longrightarrow> fst (buildCells lib v coords (2 * j) (cs, m))
    = cs @ map (\<lambda>i. (i, formatCell lib (the (voronoi_cellPolygon lib v coords i))))
             (filter (\<lambda>i. voronoi_cellPolygon lib v coords i \<noteq> None) [j..<n])"
proof (induction "n - j" arbitrary: j cs m)
  case 0
  then have "j = n" by simp
  then show ?case by (simp add: buildCells_done [OF assms])
next
  case (Suc d)
  then have lt: "j < n" and d: "d = n - Suc j" and le: "Suc j \<le> n" by simp_all
  note step = buildCells_step [OF assms lt, of lib v cs m]
  show ?case
  proof (cases "voronoi_cellPolygon lib v coords j")
    case None
    then show ?thesis
      using step Suc.hyps(1) [OF d le, of cs m] lt by (simp add: upt_conv_Cons)
  next
    case (Some cell)
    then show ?thesis
      using step Suc.hyps(1) [OF d le, of "cs @ [(j, formatCell lib cell)]" "m(j \<mapsto> length cs)"] lt
      by (simp add: upt_conv_Cons)
  qed
qed

lemma index_map_extend:
  assumes "index_map cs m" and "\<forall>p < length cs. fst (cs ! p) < j"
  shows "index_map (cs @ [(j, c)]) (m(j \<mapsto> length cs))"
  unfolding index_map_def
proof (intro allI)
  fix k p
  show "((m(j \<mapsto> length cs)) k = Some p) = (p < length (cs @ [(j, c)]) \<and> fst ((cs @ [(j, c)]) ! p) = k)"
  proof (cases "p < length cs")
    case True
    then have "fst (cs ! p) \<noteq> j" using assms(2) by auto
    then show ?thesis using True assms(1) by (auto simp add: index_map_def nth_append)
  next
    case False
    have "m k \<noteq> Some p" using False assms(1) by (simp add: index_map_def)
    then show ?thesis using False by (auto simp add: nth_append)
  qed
qed

lemma snd_buildCells:
  assumes "length coords = 2 * n"
  shows "j \<le> n \<Longrightarrow> index_map cs m \<Longrightarrow> \<forall>p < length cs. fst (cs ! p) < j
    \<Longrightarrow> index_map (fst (buildCells lib v coords (2 * j) (cs, m)))
          (snd (buildCells lib v coords (2 * j) (cs, m)))"
proof (induction "n - j" arbitrary: j cs m)
  case 0
  then have "j = n" by simp
  then show ?case using 0 by (simp add: buildCells_done [OF assms])
next
  case (Suc d)
  then have lt: "j < n" and d: "d = n - Suc j" and le: "Suc j \<le> n" by simp_all
  note step = buildCells_step [OF assms lt, of lib v cs m]
  show ?case
  proof (cases "voronoi_cellPolygon lib v coords j")
    case None
    have "\<forall>p < length cs. fst (cs ! p) < Suc j" using Suc.prems(3) by (simp add: less_Suc_eq)
    then show ?thesis
      using step None Suc.hyps(1) [OF d le Suc.prems(2)] by simp
  next
    case (Some cell)
    let ?cs = "cs @ [(j, formatCell lib cell)]"
    have im: "index_map ?cs (m(j \<mapsto> length cs))"
      using Suc.prems(2,3) by (rule index_map_extend)
    have "\<forall>p < length ?cs. fst (?cs ! p) < Suc j"
      using Suc.prems(3) by (simp add: nth_append less_Suc_eq)
    then show ?thesis
      using step Some Suc.hyps(1) [OF d le im] by simp
  qed
qed

lemma index_map_neighbors:
  assumes "index_map cs m"
  shows "map (\<lambda>r. fst (cs ! r)) (map the (filter (\<lambda>neighbor. neighbor \<noteq> None) (map m ns)))
      = filter (\<lambda>i. i \<in> set (map fst cs)) ns
    \<and> (\<forall>r \<in> set (map the (filter (\<lambda>neighbor. neighbor \<noteq> None) (map m ns))). r < length cs)"
proof (induction ns)
  case Nil
  then show ?case by simp
next
  case (Cons i ns)
  show ?case
  proof (cases "m i")
    case None
    have "i \<notin> set (map fst cs)"
    proof
      assume "i \<in> set (map fst cs)"
      then obtain p where "p < length cs" and "fst (cs ! p) = i"
        by (auto simp add: in_set_conv_nth)
      then have "m i = Some p" using assms by (simp add: index_map_def)
      then show False using None by simp
    qed
    then show ?thesis using None Cons by simp
  next
    case (Some p)
    then have p: "p < length cs \<and> fst (cs ! p) = i" using assms by (simp add: index_map_def)
    then have "cs ! p \<in> set cs" by simp
    then have "i \<in> set (map fst cs)" using p by force
    then show ?thesis using Some p Cons by simp
  qed
qed

lemma createVoronoiDiagram_parts:
  fixes lib :: "'t d3" and width height f :: real and pts :: "point list" and k :: nat
  defines "D \<equiv> createVoronoiDiagram lib width height pts k f"
    and "coords \<equiv> fst (relaxed lib width height pts k f)"
    and "v \<equiv> snd (relaxed lib width height pts k f)"
  defines "idxs \<equiv> builtIndices lib v coords (length pts)"
  defines "built \<equiv> buildCells lib v coords 0 ([], Map.empty)"
  shows "diagramPoints D = map (\<lambda>i. \<lparr>px = coords ! (2 * i), py = coords ! (2 * i + 1)\<rparr>) [0..<length pts]"
    and "cells D = map (linkNeighbors lib v coords (snd built)) (fst built)"
    and "fst built = map (\<lambda>i. (i, formatCell lib (the (voronoi_cellPolygon lib v coords i)))) idxs"
    and "index_map (fst built) (snd built)"
proof -
  have len: "length coords = 2 * length pts"
    unfolding coords_def by (rule length_relaxed)
  have D: "D = \<lparr>cells = map (linkNeighbors lib v coords (snd built)) (fst built),
                diagramPoints = collectPoints coords 0\<rparr>"
    unfolding D_def createVoronoiDiagram_def built_def coords_def v_def
    by (simp add: case_prod_unfold Let_def)
  have "collectPoints coords (2 * 0)
      = map (\<lambda>i. \<lparr>px = coords ! (2 * i), py = coords ! (2 * i + 1)\<rparr>) [0..<length pts]"
    using len by (rule collectPoints_even) simp
  then show "diagramPoints D
      = map (\<lambda>i. \<lparr>px = coords ! (2 * i), py = coords ! (2 * i + 1)\<rparr>) [0..<length pts]"
    using D by simp
  show "cells D = map (linkNeighbors lib v coords (snd built)) (fst built)"
    using D by simp
  have "fst (buildCells lib v coords (2 * 0) ([], Map.empty))
      = [] @ map (\<lambda>i. (i, formatCell lib (the (voronoi_cellPolygon lib v coords i))))
             (filter (\<lambda>i. voronoi_cellPolygon lib v coords i \<noteq> None) [0..<length pts])"
    using len by (rule fst_buildCells) simp
  then show "fst built
      = map (\<lambda>i. (i, formatCell lib (the (voronoi_cellPolygon lib v coords i)))) idxs"
    by (simp add: built_def idxs_def builtIndices_def)
  have "index_map (fst (buildCells lib v coords (2 * 0) ([], Map.empty)))
       (snd (buildCells lib v coords (2 * 0) ([], Map.empty)))"
    using len by (rule snd_buildCells) (simp_all add: index_map_def)
  then show "index_map (fst built) (snd built)" by (simp add: built_def)
qed

text \<open>
  For a polygon \<open>pts\<close> whose centroid is finite, or that has fewer than two vertices,
  the \<^verbatim>\<open>innerCircleRadius\<close> of the cell built from it is the radius of the
  specification: the minimum, over the consecutive pairs of the vertices sorted by
  ascending \<^verbatim>\<open>atan2\<close> angle around the centroid and the wraparound pair (last, first),
  of the distance from the centroid to the segment; and \<open>0\<close> for fewer than two
  vertices. The list the source sorts is sorted by ascending angle and is a permutation
  of the vertices.
\<close>

lemma innerCircleRadius_finite_centroid:
  assumes "polygonCentroid_finite lib pts \<or> length pts < 2"
  shows "innerCircleRadius (formatCell lib pts)
     = Finite (spec_innerCircleRadius (polygonCentroid lib pts) pts)
   \<and> sorted (map (\<lambda>p. atan2 (snd p - snd c) (fst p - fst c)) (sortPointsByAngle c pts))
   \<and> mset (sortPointsByAngle c pts) = mset pts"
  using assms by (simp add: formatCell_def getClosestEdgeToCentroid_spec sortPointsByAngle_def)

lemma innerCircleRadius_closed_square:
  "innerCircleRadius (formatCell box_d3 closed_square) = Finite 1
   \<and> innerCircleRadius (formatCell box_d3 [(0, 0)]) = Finite 0"
proof -
  have "spec_innerCircleRadius (1, 1) [(0, 0)] = 0"
    by (simp add: spec_innerCircleRadius_def)
  then show ?thesis
    using innerCircleRadius_finite_centroid [of box_d3 closed_square]
      innerCircleRadius_finite_centroid [of box_d3 "[(0, 0)]"]
    by (simp add: box_d3_simps closed_square_radius)
qed


text \<open>
  Claim C3. For every array of points and every number of relaxation rounds, the
  result has one point for each input point, in the order of the sites (the point at
  position \<open>i\<close> is read from the positions \<open>2 i\<close> and \<open>2 i + 1\<close> of the final
  buffer), and it has one cell for each site that has a polygon in the final
  tessellation, so at most as many cells as points.
\<close>

theorem createVoronoiDiagram_counts:
  "length (diagramPoints (createVoronoiDiagram lib width height pts k f)) = length pts
   \<and> length (cells (createVoronoiDiagram lib width height pts k f))
       \<le> length (diagramPoints (createVoronoiDiagram lib width height pts k f))
   \<and> diagramPoints (createVoronoiDiagram lib width height pts k f)
       = map (\<lambda>i. \<lparr>px = fst (relaxed lib width height pts k f) ! (2 * i),
                    py = fst (relaxed lib width height pts k f) ! (2 * i + 1)\<rparr>) [0..<length pts]
   \<and> length (cells (createVoronoiDiagram lib width height pts k f))
       = length (cellIndices lib width height pts k f)"
proof -
  note parts = createVoronoiDiagram_parts [of lib width height pts k f]
  have c: "length (cells (createVoronoiDiagram lib width height pts k f))
      = length (cellIndices lib width height pts k f)"
    by (simp add: parts(2) parts(3) cellIndices_def Let_def)
  have "length (cellIndices lib width height pts k f) \<le> length [0..<length pts]"
    unfolding cellIndices_def Let_def builtIndices_def by (rule length_filter_le)
  then show ?thesis using c by (simp add: parts(1))
qed

text \<open>
  Claim C5. With \<open>relaxIterations = 0\<close> nothing is relaxed: the buffer and the
  tessellation are the initial ones, and the points of the result are the input points,
  in the same order.
\<close>

theorem createVoronoiDiagram_no_relaxation:
  "diagramPoints (createVoronoiDiagram lib width height pts 0 f) = pts
   \<and> relaxed lib width height pts 0 f
       = (delaunay_points (map (\<lambda>point. (px point, py point)) pts),
          delaunay_voronoi lib (delaunay_points (map (\<lambda>point. (px point, py point)) pts))
            (0, 0, width, height))"
proof -
  have r: "relaxed lib width height pts 0 f
       = (delaunay_points (map (\<lambda>point. (px point, py point)) pts),
          delaunay_voronoi lib (delaunay_points (map (\<lambda>point. (px point, py point)) pts))
            (0, 0, width, height))"
    by (simp add: relaxed_def Let_def)
  have "diagramPoints (createVoronoiDiagram lib width height pts 0 f)
      = map (\<lambda>i. \<lparr>px = fst (relaxed lib width height pts 0 f) ! (2 * i),
                   py = fst (relaxed lib width height pts 0 f) ! (2 * i + 1)\<rparr>) [0..<length pts]"
    by (rule createVoronoiDiagram_parts(1))
  also have "\<dots> = map (\<lambda>i. pts ! i) [0..<length pts]"
  proof (rule map_cong [OF refl])
    fix i assume "i \<in> set [0..<length pts]"
    then have "i < length (map (\<lambda>point. (px point, py point)) pts)" by simp
    from nth_delaunay_points [OF this]
    show "\<lparr>px = fst (relaxed lib width height pts 0 f) ! (2 * i),
           py = fst (relaxed lib width height pts 0 f) ! (2 * i + 1)\<rparr> = pts ! i"
      using \<open>i \<in> set [0..<length pts]\<close> by (simp add: r)
  qed
  also have "\<dots> = pts" by (rule map_nth)
  finally show ?thesis using r by simp
qed

text \<open>
  Claim C7, as amended. The \<^verbatim>\<open>points\<close> of every cell are exactly the polygon that
  \<^verbatim>\<open>voronoi.cellPolygon\<close> returns for the site of the cell, vertex for vertex:
  \<^verbatim>\<open>formatCell\<close> neither removes nor adds a closing vertex.
\<close>

theorem createVoronoiDiagram_cell_points:
  "map cell_points (cells (createVoronoiDiagram lib width height pts k f))
     = map (\<lambda>i. the (voronoi_cellPolygon lib (snd (relaxed lib width height pts k f))
                        (fst (relaxed lib width height pts k f)) i))
         (cellIndices lib width height pts k f)"
  by (simp add: createVoronoiDiagram_parts(2) createVoronoiDiagram_parts(3) cellIndices_def
      Let_def linkNeighbors_def formatCell_def comp_def)

text \<open>
  Claim C8. For every cell of the result, every entry of \<^verbatim>\<open>neighbors\<close> is a reference
  to a cell of the result (a position of the array \<^verbatim>\<open>cells\<close>), and the sites of the
  cells referred to are, in the same order, the indices that \<^verbatim>\<open>voronoi.neighbors\<close>
  yields for the site of the cell, without the indices that have no cell.
\<close>

theorem createVoronoiDiagram_neighbors:
  assumes "c < length (cells (createVoronoiDiagram lib width height pts k f))"
  shows "list_all (\<lambda>r. r < length (cells (createVoronoiDiagram lib width height pts k f)))
           (neighbors (cells (createVoronoiDiagram lib width height pts k f) ! c))
    \<and> map (\<lambda>r. cellIndices lib width height pts k f ! r)
           (neighbors (cells (createVoronoiDiagram lib width height pts k f) ! c))
       = filter (\<lambda>i. i \<in> set (cellIndices lib width height pts k f))
           (voronoi_neighbors lib (snd (relaxed lib width height pts k f))
              (fst (relaxed lib width height pts k f))
              (cellIndices lib width height pts k f ! c))"
proof -
  define coords where "coords = fst (relaxed lib width height pts k f)"
  define v where "v = snd (relaxed lib width height pts k f)"
  define built where "built = buildCells lib v coords 0 ([], Map.empty)"
  define idxs where "idxs = cellIndices lib width height pts k f"
  note parts = createVoronoiDiagram_parts [of lib width height pts k f, folded coords_def v_def, folded built_def]
  have idxs: "idxs = builtIndices lib v coords (length pts)"
    by (simp add: idxs_def cellIndices_def Let_def coords_def v_def)
  have fb: "map fst (fst built) = idxs"
    by (simp add: parts(3) idxs comp_def)
  have lc: "length (cells (createVoronoiDiagram lib width height pts k f)) = length (fst built)"
    by (simp add: parts(2))
  have c: "c < length (fst built)" using assms lc by simp
  then have ci: "fst (fst built ! c) = idxs ! c" using fb by (metis nth_map)
  have nb: "neighbors (cells (createVoronoiDiagram lib width height pts k f) ! c)
      = map the (filter (\<lambda>neighbor. neighbor \<noteq> None)
          (map (snd built) (voronoi_neighbors lib v coords (idxs ! c))))"
    using c ci by (simp add: parts(2) linkNeighbors_def Let_def)
  note im = index_map_neighbors [OF parts(4), of "voronoi_neighbors lib v coords (idxs ! c)"]
  have m: "map (\<lambda>r. idxs ! r) (neighbors (cells (createVoronoiDiagram lib width height pts k f) ! c))
      = map (\<lambda>r. fst (fst built ! r)) (neighbors (cells (createVoronoiDiagram lib width height pts k f) ! c))"
  proof (rule map_cong [OF refl])
    fix r assume "r \<in> set (neighbors (cells (createVoronoiDiagram lib width height pts k f) ! c))"
    then have "r \<in> set (map the (filter (\<lambda>neighbor. neighbor \<noteq> None)
          (map (snd built) (voronoi_neighbors lib v coords (idxs ! c)))))"
      by (simp only: nb)
    then have "r < length (fst built)" using im [THEN conjunct2] by blast
    then show "idxs ! r = fst (fst built ! r)" using fb by (metis nth_map)
  qed
  show ?thesis
    using im m nb lc fb
    by (simp add: list_all_iff idxs_def [symmetric] coords_def [symmetric] v_def [symmetric])
qed

text \<open>
  The claim C7 as stated fails: for one site in a box of side 2, with the polygon as
  d3-delaunay returns it, the \<^verbatim>\<open>points\<close> of the cell end with a copy of the first
  vertex.
\<close>

theorem createVoronoiDiagram_closing_duplicate:
  "cell_points (cells (createVoronoiDiagram box_d3 2 2 [\<lparr>px = 1, py = 1\<rparr>] 0 (1 / 2)) ! 0)
     = [(2, 0), (2, 2), (0, 2), (0, 0), (2, 0)]"
  by (simp add: createVoronoiDiagram_def relaxed_def box_d3_simps buildCells.simps
      linkNeighbors_def formatCell_def Let_def)

lemma three_sites_relaxed:
  "relaxed box_d3 4 4 three_sites (Suc 0) (1 / 2) = ([1, 1, 3, 1, 3 / 2, 2], (0, 0, 4, 4))"
  by (simp add: three_sites_def relaxed_def box_d3_simps relaxCells.simps Let_def)

lemma three_sites_cellIndices:
  "cellIndices box_d3 4 4 three_sites (Suc 0) (1 / 2) = [0, 2]"
  by (simp add: cellIndices_def three_sites_relaxed builtIndices_def box_d3_simps Let_def)
    (simp add: three_sites_def)

lemma three_sites_neighbors:
  "map neighbors (cells (createVoronoiDiagram box_d3 4 4 three_sites (Suc 0) (1 / 2)))
     = [[1], [0]]"
  by (simp add: createVoronoiDiagram_def three_sites_relaxed buildCells.simps
      linkNeighbors_def formatCell_def Let_def box_d3_simps)

theorem createVoronoiDiagram_neighbors_witness:
  "0 < length (cells (createVoronoiDiagram box_d3 4 4 three_sites (Suc 0) (1 / 2)))
   \<and> neighbors (cells (createVoronoiDiagram box_d3 4 4 three_sites (Suc 0) (1 / 2)) ! 0) = [1]
   \<and> map (\<lambda>r. cellIndices box_d3 4 4 three_sites (Suc 0) (1 / 2) ! r)
        (neighbors (cells (createVoronoiDiagram box_d3 4 4 three_sites (Suc 0) (1 / 2)) ! 0))
       = [2]"
proof -
  let ?D = "createVoronoiDiagram box_d3 4 4 three_sites (Suc 0) (1 / 2)"
  have l: "length (cells ?D) = 2" using arg_cong [OF three_sites_neighbors, of length] by simp
  then have h: "0 < length (cells ?D)" by simp
  have n: "neighbors (cells ?D ! 0) = [1]"
    using arg_cong [OF three_sites_neighbors, of "\<lambda>xs. xs ! 0"] l by simp
  show ?thesis
    using h n createVoronoiDiagram_neighbors [OF h]
    by (simp add: three_sites_cellIndices three_sites_relaxed box_d3_simps)
qed

section \<open>The sampler in exact arithmetic\<close>

lemma cellSize_pos: "0 < radius \<Longrightarrow> 0 < cellSize radius"
  by (simp add: cellSize_def)

lemma cellSize_sq: "2 * (cellSize radius * cellSize radius) = radius * radius"
  by (simp add: cellSize_def)

lemma radius_over_cellSize: "0 < radius \<Longrightarrow> radius / cellSize radius < 2"
proof -
  assume "0 < radius"
  then have "radius / cellSize radius = sqrt 2" by (simp add: cellSize_def)
  moreover have "sqrt 2 < (2::real)" by (rule real_less_lsqrt) simp_all
  ultimately show ?thesis by simp
qed

lemma col_in_grid:
  assumes "0 < c" and "0 \<le> a" and "a < w"
  shows "0 \<le> \<lfloor>a / c\<rfloor> \<and> \<lfloor>a / c\<rfloor> \<le> \<lceil>w / c\<rceil> - 1"
proof -
  have "0 \<le> a / c" using assms by simp
  then have lo: "0 \<le> \<lfloor>a / c\<rfloor>" by simp
  have "a / c < w / c" using assms by (simp add: divide_strict_right_mono)
  also have "w / c \<le> of_int \<lceil>w / c\<rceil>" by simp
  finally have "\<lfloor>a / c\<rfloor> < \<lceil>w / c\<rceil>" by (simp only: floor_less_iff)
  then show ?thesis using lo by simp
qed

lemma floor_near:
  fixes a b :: real
  assumes "\<bar>a - b\<bar> < 2"
  shows "\<lfloor>b\<rfloor> - 2 \<le> \<lfloor>a\<rfloor> \<and> \<lfloor>a\<rfloor> \<le> \<lfloor>b\<rfloor> + 2"
  using assms by linarith

lemma close_cols:
  assumes "0 < radius" and "\<bar>a - b\<bar> < radius"
  shows "\<lfloor>b / cellSize radius\<rfloor> - 2 \<le> \<lfloor>a / cellSize radius\<rfloor>
    \<and> \<lfloor>a / cellSize radius\<rfloor> \<le> \<lfloor>b / cellSize radius\<rfloor> + 2"
proof (rule floor_near)
  have c: "0 < cellSize radius" using assms(1) by (rule cellSize_pos)
  have "\<bar>a / cellSize radius - b / cellSize radius\<bar> = \<bar>a - b\<bar> / cellSize radius"
    using c by (simp add: diff_divide_distrib [symmetric])
  also have "\<dots> < radius / cellSize radius"
    using assms(2) c by (simp add: divide_strict_right_mono)
  also have "\<dots> < 2" using assms(1) by (rule radius_over_cellSize)
  finally show "\<bar>a / cellSize radius - b / cellSize radius\<bar> < 2" .
qed

lemma abs_less_of_square:
  fixes d r :: real
  assumes "0 < r" and "d * d < r * r"
  shows "\<bar>d\<bar> < r"
proof (rule ccontr)
  assume "\<not> \<bar>d\<bar> < r"
  then have "r \<le> \<bar>d\<bar>" by simp
  then have "r * r \<le> \<bar>d\<bar> * \<bar>d\<bar>" using assms(1) by (intro mult_mono) simp_all
  then show False using assms(2) by simp
qed

lemma abs_less_of_distSq:
  fixes dx dy r :: real
  assumes "0 < r" and "dx * dx + dy * dy < r * r"
  shows "\<bar>dx\<bar> < r \<and> \<bar>dy\<bar> < r"
proof -
  have "0 \<le> dx * dx" and "0 \<le> dy * dy" by simp_all
  then have "dx * dx < r * r" and "dy * dy < r * r" using assms(2) by linarith+
  then show ?thesis using assms(1) by (simp add: abs_less_of_square)
qed

lemma same_floor_close:
  fixes a b c :: real
  assumes "0 < c" and "\<lfloor>a / c\<rfloor> = \<lfloor>b / c\<rfloor>"
  shows "\<bar>a - b\<bar> < c"
proof -
  have "\<bar>a / c - b / c\<bar> < 1" using assms(2) by linarith
  then have "\<bar>(a - b) / c\<bar> < 1" by (simp add: diff_divide_distrib)
  then have "\<bar>a - b\<bar> / c < 1" using assms(1) by simp
  then show ?thesis using assms(1) by (simp add: divide_less_eq)
qed

lemma same_cell_close:
  assumes "0 < radius"
    and "\<lfloor>x1 / cellSize radius\<rfloor> = \<lfloor>x2 / cellSize radius\<rfloor>"
    and "\<lfloor>y1 / cellSize radius\<rfloor> = \<lfloor>y2 / cellSize radius\<rfloor>"
  shows "(x1 - x2) * (x1 - x2) + (y1 - y2) * (y1 - y2) < radius * radius"
proof -
  let ?c = "cellSize radius"
  have c: "0 < ?c" using assms(1) by (rule cellSize_pos)
  have dx: "\<bar>x1 - x2\<bar> < ?c" using c assms(2) by (rule same_floor_close)
  have dy: "\<bar>y1 - y2\<bar> < ?c" using c assms(3) by (rule same_floor_close)
  have "(x1 - x2) * (x1 - x2) = \<bar>x1 - x2\<bar> * \<bar>x1 - x2\<bar>" by simp
  also have "\<dots> < ?c * ?c" using dx by (intro mult_strict_mono') simp_all
  finally have 1: "(x1 - x2) * (x1 - x2) < ?c * ?c" .
  have "(y1 - y2) * (y1 - y2) = \<bar>y1 - y2\<bar> * \<bar>y1 - y2\<bar>" by simp
  also have "\<dots> < ?c * ?c" using dy by (intro mult_strict_mono') simp_all
  finally have 2: "(y1 - y2) * (y1 - y2) < ?c * ?c" .
  show ?thesis using 1 2 cellSize_sq [of radius] by linarith
qed

lemma grid_index_inj:
  fixes gw :: int
  assumes "row * gw + col = row' * gw + col'"
    and "0 \<le> col" "col < gw" "0 \<le> col'" "col' < gw"
  shows "row = row' \<and> col = col'"
proof -
  have "(row * gw + col) div gw = row" using assms(2,3) by (simp add: div_pos_pos_trivial)
  moreover have "(row' * gw + col') div gw = row'" using assms(4,5) by (simp add: div_pos_pos_trivial)
  ultimately have "row = row'" using assms(1) by simp
  then show ?thesis using assms(1) by simp
qed

lemma scanCells_true:
  "scanCells radius pts g x y L = Inr True \<Longrightarrow> idx \<in> set L \<Longrightarrow> g idx = Some v \<Longrightarrow> v \<noteq> - 1
   \<Longrightarrow> radius * radius
        \<le> (px (pts ! nat v) - x) * (px (pts ! nat v) - x)
          + (py (pts ! nat v) - y) * (py (pts ! nat v) - y)"
proof (induction L)
  case Nil
  then show ?case by simp
next
  case (Cons k L)
  show ?case
  proof (cases "idx = k")
    case True
    then show ?thesis
      using Cons.prems by (simp add: Let_def not_less split: if_splits)
  next
    case False
    then have "idx \<in> set L" using Cons.prems(2) by simp
    moreover have "scanCells radius pts g x y L = Inr True"
      using Cons.prems(1) by (simp add: Let_def split: option.splits if_splits)
    ultimately show ?thesis using Cons.IH Cons.prems(3,4) by blast
  qed
qed

lemma scanCells_total:
  "\<forall>idx \<in> set L. \<exists>v. g idx = Some v \<and> (v = - 1 \<or> (0 \<le> v \<and> nat v < length pts))
   \<Longrightarrow> \<not> isl (scanCells radius pts g x y L)"
proof (induction L)
  case Nil
  show ?case by simp
next
  case (Cons k L)
  then obtain v where v: "g k = Some v" "v = - 1 \<or> (0 \<le> v \<and> nat v < length pts)" by auto
  from Cons have b: "\<not> isl (scanCells radius pts g x y L)" by simp
  show ?case
  proof (cases "v = - 1")
    case True
    then show ?thesis using v(1) b by simp
  next
    case False
    then show ?thesis using v b by (simp add: Let_def)
  qed
qed

lemma scan_list_mem:
  "idx \<in> set (concat (map (\<lambda>r. map (\<lambda>c. r * gw + c) [minCol..maxCol]) [minRow..maxRow]))
   \<longleftrightarrow> (\<exists>r c. idx = r * gw + c \<and> minRow \<le> r \<and> r \<le> maxRow \<and> minCol \<le> c \<and> c \<le> maxCol)"
  (is "?L \<longleftrightarrow> ?R")
proof
  assume ?L
  then obtain xs where xs: "xs \<in> set (map (\<lambda>r. map (\<lambda>c. r * gw + c) [minCol..maxCol]) [minRow..maxRow])"
    and idx: "idx \<in> set xs"
    unfolding set_concat by blast
  from xs obtain r where r: "r \<in> set [minRow..maxRow]"
    and "xs = map (\<lambda>c. r * gw + c) [minCol..maxCol]"
    unfolding set_map by blast
  with idx obtain c where "c \<in> set [minCol..maxCol]" and "idx = r * gw + c"
    by (auto simp del: set_upto)
  with r show ?R by auto
next
  assume ?R
  then obtain r c where rc: "idx = r * gw + c" "minRow \<le> r" "r \<le> maxRow" "minCol \<le> c" "c \<le> maxCol"
    by blast
  then have "c \<in> set [minCol..maxCol]" and r: "r \<in> set [minRow..maxRow]" by simp_all
  then have "idx \<in> set (map (\<lambda>c. r * gw + c) [minCol..maxCol])"
    using rc(1) unfolding set_map by blast
  moreover have "map (\<lambda>c. r * gw + c) [minCol..maxCol]
      \<in> set (map (\<lambda>r. map (\<lambda>c. r * gw + c) [minCol..maxCol]) [minRow..maxRow])"
    using r unfolding set_map by blast
  ultimately show ?L unfolding set_concat by blast
qed

lemma cell_index_range:
  fixes gw gh r c :: int
  assumes "0 \<le> r" "r \<le> gh - 1" "0 \<le> c" "c \<le> gw - 1"
  shows "0 \<le> r * gw + c \<and> r * gw + c < gw * gh"
proof -
  have gw: "0 < gw" using assms(3,4) by simp
  have "0 \<le> r * gw" using assms(1) gw by simp
  then have lo: "0 \<le> r * gw + c" using assms(3) by simp
  have "r * gw \<le> (gh - 1) * gw" using assms(2) gw by (simp add: mult_right_mono)
  then have "r * gw + c < (gh - 1) * gw + gw" using assms(4) by linarith
  also have "(gh - 1) * gw + gw = gw * gh" by (simp add: algebra_simps)
  finally show ?thesis using lo by simp
qed

lemma point_cell_in_grid:
  assumes "0 < radius" and "in_area width height p"
  shows "0 \<le> \<lfloor>px p / cellSize radius\<rfloor> \<and> \<lfloor>px p / cellSize radius\<rfloor> \<le> gridWidth width radius - 1"
    and "0 \<le> \<lfloor>py p / cellSize radius\<rfloor> \<and> \<lfloor>py p / cellSize radius\<rfloor> \<le> gridHeight height radius - 1"
proof -
  note c = cellSize_pos [OF assms(1)]
  have x: "0 \<le> px p" "px p < width" and y: "0 \<le> py p" "py p < height"
    using assms(2) by (simp_all add: in_area_def)
  show "0 \<le> \<lfloor>px p / cellSize radius\<rfloor> \<and> \<lfloor>px p / cellSize radius\<rfloor> \<le> gridWidth width radius - 1"
    unfolding gridWidth_def using c x by (rule col_in_grid)
  show "0 \<le> \<lfloor>py p / cellSize radius\<rfloor> \<and> \<lfloor>py p / cellSize radius\<rfloor> \<le> gridHeight height radius - 1"
    unfolding gridHeight_def using c y by (rule col_in_grid)
qed

lemma isValid_true:
  assumes r: "0 < radius" and inv: "sampler_inv width height radius s"
    and v: "isValid width height radius (points s) (grid s) x y = Inr True"
  shows "in_area width height \<lparr>px = x, py = y\<rparr>"
    and "\<forall>i < length (points s).
           radius * radius \<le> (px (points s ! i) - x) * (px (points s ! i) - x)
                              + (py (points s ! i) - y) * (py (points s ! i) - y)"
proof -
  let ?c = "cellSize radius" and ?gw = "gridWidth width radius" and ?gh = "gridHeight height radius"
  let ?col = "\<lfloor>x / ?c\<rfloor>" and ?row = "\<lfloor>y / ?c\<rfloor>"
  let ?L = "concat (map (\<lambda>r. map (\<lambda>c. r * ?gw + c)
               [max 0 (?col - 2)..min (?gw - 1) (?col + 2)])
               [max 0 (?row - 2)..min (?gh - 1) (?row + 2)])"
  have inb: "\<not> (x < 0 \<or> width \<le> x \<or> y < 0 \<or> height \<le> y)"
    using v by (auto simp add: isValid_def)
  then show "in_area width height \<lparr>px = x, py = y\<rparr>" by (simp add: in_area_def)
  have scan: "scanCells radius (points s) (grid s) x y ?L = Inr True"
    using v inb by (simp add: isValid_def Let_def)
  show "\<forall>i < length (points s).
           radius * radius \<le> (px (points s ! i) - x) * (px (points s ! i) - x)
                              + (py (points s ! i) - y) * (py (points s ! i) - y)"
  proof (intro allI impI, rule ccontr)
    fix i assume i: "i < length (points s)"
    let ?p = "points s ! i"
    assume "\<not> radius * radius \<le> (px ?p - x) * (px ?p - x) + (py ?p - y) * (py ?p - y)"
    then have "(px ?p - x) * (px ?p - x) + (py ?p - y) * (py ?p - y) < radius * radius" by simp
    from abs_less_of_distSq [OF r this]
    have dx: "\<bar>px ?p - x\<bar> < radius" and dy: "\<bar>py ?p - y\<bar> < radius" by simp_all
    have area: "in_area width height ?p"
      and g: "grid s (gridIndex width radius (px ?p) (py ?p)) = Some (int i)"
      using inv i by (simp_all add: sampler_inv_def)
    note cg = point_cell_in_grid [OF r area]
    note cc = close_cols [OF r dx] close_cols [OF r dy]
    have "gridIndex width radius (px ?p) (py ?p) \<in> set ?L"
      unfolding scan_list_mem gridIndex_def Let_def
      using cg cc by (intro exI [of _ "\<lfloor>py ?p / ?c\<rfloor>"] exI [of _ "\<lfloor>px ?p / ?c\<rfloor>"]) simp
    from scanCells_true [OF scan this g]
    have "radius * radius \<le> (px ?p - x) * (px ?p - x) + (py ?p - y) * (py ?p - y)" by simp
    then show False
      using \<open>\<not> radius * radius \<le> (px ?p - x) * (px ?p - x) + (py ?p - y) * (py ?p - y)\<close>
      by simp
  qed
qed

lemma isValid_total:
  assumes inv: "sampler_inv width height radius s"
  shows "\<not> isl (isValid width height radius (points s) (grid s) x y)"
proof (cases "x < 0 \<or> width \<le> x \<or> y < 0 \<or> height \<le> y")
  case True
  then show ?thesis by (simp add: isValid_def)
next
  case False
  let ?c = "cellSize radius" and ?gw = "gridWidth width radius" and ?gh = "gridHeight height radius"
  let ?col = "\<lfloor>x / ?c\<rfloor>" and ?row = "\<lfloor>y / ?c\<rfloor>"
  let ?L = "concat (map (\<lambda>r. map (\<lambda>c. r * ?gw + c)
               [max 0 (?col - 2)..min (?gw - 1) (?col + 2)])
               [max 0 (?row - 2)..min (?gh - 1) (?row + 2)])"
  have "\<forall>idx \<in> set ?L. \<exists>v. grid s idx = Some v
      \<and> (v = - 1 \<or> (0 \<le> v \<and> nat v < length (points s)))"
  proof
    fix idx assume "idx \<in> set ?L"
    then obtain r c where rc: "idx = r * ?gw + c" "0 \<le> r" "r \<le> ?gh - 1" "0 \<le> c" "c \<le> ?gw - 1"
      unfolding scan_list_mem by auto
    have "0 \<le> idx \<and> idx < ?gw * ?gh"
      unfolding rc(1) using rc(2-5) by (rule cell_index_range)
    then have "grid s idx \<noteq> None" using inv by (simp add: sampler_inv_def)
    then obtain v where v: "grid s idx = Some v" by auto
    then have "v = - 1 \<or> (0 \<le> v \<and> nat v < length (points s))"
      using inv unfolding sampler_inv_def by blast
    then show "\<exists>v. grid s idx = Some v \<and> (v = - 1 \<or> (0 \<le> v \<and> nat v < length (points s)))"
      using v by simp
  qed
  then have "\<not> isl (scanCells radius (points s) (grid s) x y ?L)" by (rule scanCells_total)
  then show ?thesis using False by (simp add: isValid_def Let_def)
qed

lemma addPoint_fields:
  "points (addPoint width radius x y s) = points s @ [\<lparr>px = x, py = y\<rparr>]"
  "active (addPoint width radius x y s) = active s @ [length (points s)]"
  "grid (addPoint width radius x y s)
     = (grid s)(gridIndex width radius x y \<mapsto> int (length (points s)))"
  "prng (addPoint width radius x y s) = prng s"
  by (simp_all add: addPoint_def Let_def)

lemma gridIndex_eq_far:
  assumes r: "0 < radius" and a1: "in_area width height p" and a2: "in_area width height q"
    and far: "radius * radius \<le> (px p - px q) * (px p - px q) + (py p - py q) * (py p - py q)"
  shows "gridIndex width radius (px p) (py p) \<noteq> gridIndex width radius (px q) (py q)"
proof
  assume eq: "gridIndex width radius (px p) (py p) = gridIndex width radius (px q) (py q)"
  note cp = point_cell_in_grid [OF r a1] and cq = point_cell_in_grid [OF r a2]
  have "\<lfloor>py p / cellSize radius\<rfloor> = \<lfloor>py q / cellSize radius\<rfloor>
      \<and> \<lfloor>px p / cellSize radius\<rfloor> = \<lfloor>px q / cellSize radius\<rfloor>"
    using eq cp(1) cq(1) unfolding gridIndex_def Let_def
    by (intro grid_index_inj [where gw = "gridWidth width radius"]) simp_all
  then have "(px p - px q) * (px p - px q) + (py p - py q) * (py p - py q) < radius * radius"
    using r by (intro same_cell_close) simp_all
  then show False using far by simp
qed

lemma addPoint_inv:
  assumes r: "0 < radius" and inv: "sampler_inv width height radius s"
    and area: "in_area width height \<lparr>px = x, py = y\<rparr>"
    and far: "\<forall>i < length (points s).
           radius * radius \<le> (px (points s ! i) - x) * (px (points s ! i) - x)
                              + (py (points s ! i) - y) * (py (points s ! i) - y)"
  shows "sampler_inv width height radius (addPoint width radius x y s)"
proof -
  let ?n = "length (points s)"
  let ?k = "gridIndex width radius x y"
  let ?s = "addPoint width radius x y s"
  have old: "\<forall>i < ?n. in_area width height (points s ! i)
        \<and> grid s (gridIndex width radius (px (points s ! i)) (py (points s ! i))) = Some (int i)"
    and vals: "\<forall>k v. grid s k = Some v \<longrightarrow> v = - 1 \<or> (0 \<le> v \<and> nat v < ?n)"
    and dom: "\<forall>k. 0 \<le> k \<and> k < gridWidth width radius * gridHeight height radius \<longrightarrow> grid s k \<noteq> None"
    and pair: "\<forall>i < ?n. \<forall>j < ?n. i \<noteq> j \<longrightarrow> radius * radius \<le> distanceSquared (points s ! i) (points s ! j)"
    and act: "\<forall>a \<in> set (active s). a < ?n"
    and rng: "\<forall>u \<in> sset (prng s). 0 \<le> u \<and> u < 1"
    using inv by (simp_all add: sampler_inv_def)
  have ne: "gridIndex width radius (px (points s ! i)) (py (points s ! i)) \<noteq> ?k" if "i < ?n" for i
    using gridIndex_eq_far [OF r _ area, of "points s ! i"] old far that by simp
  have 1: "\<forall>i < length (points ?s). in_area width height (points ?s ! i)
        \<and> grid ?s (gridIndex width radius (px (points ?s ! i)) (py (points ?s ! i))) = Some (int i)"
  proof (intro allI impI)
    fix i assume "i < length (points ?s)"
    then have "i < ?n \<or> i = ?n" by (auto simp add: addPoint_fields less_Suc_eq)
    then consider "i < ?n" | "i = ?n" by blast
    then show "in_area width height (points ?s ! i)
        \<and> grid ?s (gridIndex width radius (px (points ?s ! i)) (py (points ?s ! i))) = Some (int i)"
    proof cases
      case 1
      then show ?thesis using old ne by (simp add: addPoint_fields nth_append)
    next
      case 2
      then show ?thesis using area by (simp add: addPoint_fields nth_append)
    qed
  qed
  have 2: "\<forall>k v. grid ?s k = Some v \<longrightarrow> v = - 1 \<or> (0 \<le> v \<and> nat v < length (points ?s))"
    using vals by (auto simp add: addPoint_fields less_Suc_eq)
  have 3: "\<forall>k. 0 \<le> k \<and> k < gridWidth width radius * gridHeight height radius \<longrightarrow> grid ?s k \<noteq> None"
    using dom by (simp add: addPoint_fields)
  have 4: "\<forall>i < length (points ?s). \<forall>j < length (points ?s).
        i \<noteq> j \<longrightarrow> radius * radius \<le> distanceSquared (points ?s ! i) (points ?s ! j)"
  proof (intro allI impI)
    fix i j assume ij: "i < length (points ?s)" "j < length (points ?s)" "i \<noteq> j"
    then have "(i < ?n \<and> j < ?n) \<or> (i < ?n \<and> j = ?n) \<or> (i = ?n \<and> j < ?n)"
      by (auto simp add: addPoint_fields less_Suc_eq)
    then consider "i < ?n \<and> j < ?n" | "i < ?n \<and> j = ?n" | "i = ?n \<and> j < ?n"
      by blast
    then show "radius * radius \<le> distanceSquared (points ?s ! i) (points ?s ! j)"
    proof cases
      case 1
      then show ?thesis using pair ij(3) by (simp add: addPoint_fields nth_append)
    next
      case 2
      then have "radius * radius \<le> (px (points s ! i) - x) * (px (points s ! i) - x)
                              + (py (points s ! i) - y) * (py (points s ! i) - y)"
        using far by simp
      also have "\<dots> = distanceSquared (points s ! i) \<lparr>px = x, py = y\<rparr>"
        by (simp add: distanceSquared_def Let_def algebra_simps)
      finally show ?thesis using 2 by (simp add: addPoint_fields nth_append)
    next
      case 3
      then have "radius * radius \<le> (px (points s ! j) - x) * (px (points s ! j) - x)
                              + (py (points s ! j) - y) * (py (points s ! j) - y)"
        using far by simp
      also have "\<dots> = distanceSquared \<lparr>px = x, py = y\<rparr> (points s ! j)"
        by (simp add: distanceSquared_def Let_def algebra_simps)
      finally show ?thesis using 3 by (simp add: addPoint_fields nth_append)
    qed
  qed
  have 5: "\<forall>a \<in> set (active ?s). a < length (points ?s)"
    using act by (auto simp add: addPoint_fields less_Suc_eq)
  have 6: "\<forall>u \<in> sset (prng ?s). 0 \<le> u \<and> u < 1"
    using rng by (simp add: addPoint_fields)
  show ?thesis
    unfolding sampler_inv_def using 1 2 3 4 5 6 by blast
qed

lemma sampler_inv_prng:
  assumes "sampler_inv width height radius s" and "sset g \<subseteq> sset (prng s)"
  shows "sampler_inv width height radius (s\<lparr>prng := g\<rparr>)"
  using assms unfolding sampler_inv_def by (simp add: subset_iff)

lemma sampler_inv_active:
  assumes "sampler_inv width height radius s" and "set a \<subseteq> set (active s)"
  shows "sampler_inv width height radius (s\<lparr>active := a\<rparr>)"
  using assms unfolding sampler_inv_def by (simp add: subset_iff)

lemma sset_stl_stl: "sset (stl (stl g)) \<subseteq> sset g"
  by (auto dest: stl_sset)

lemma attempts_inv:
  assumes r: "0 < radius"
  shows "sampler_inv width height radius s \<Longrightarrow>
    \<exists>found s'. attempts width height radius (Some p) n s = Inr (found, s')
      \<and> sampler_inv width height radius s'
      \<and> (if found
          then length (points s') = Suc (length (points s))
             \<and> length (active s') = Suc (length (active s))
          else points s' = points s \<and> active s' = active s)"
proof (induction n arbitrary: s)
  case 0
  then show ?case by (intro exI [of _ False] exI [of _ s]) simp
next
  case (Suc n)
  let ?cand = "fst (randomPointAround radius p (prng s))"
  let ?s1 = "s\<lparr>prng := snd (randomPointAround radius p (prng s))\<rparr>"
  have "sset (snd (randomPointAround radius p (prng s))) \<subseteq> sset (prng s)"
    by (simp add: randomPointAround_def Let_def sset_stl_stl)
  with Suc.prems have inv1: "sampler_inv width height radius ?s1" by (rule sampler_inv_prng)
  have "\<not> isl (isValid width height radius (points ?s1) (grid ?s1) (px ?cand) (py ?cand))"
    using inv1 by (rule isValid_total)
  then obtain ok where ok: "isValid width height radius (points ?s1) (grid ?s1) (px ?cand) (py ?cand) = Inr ok"
    by (cases "isValid width height radius (points ?s1) (grid ?s1) (px ?cand) (py ?cand)") simp_all
  show ?case
  proof (cases ok)
    case True
    have v: "isValid width height radius (points ?s1) (grid ?s1) (px ?cand) (py ?cand) = Inr True"
      using ok True by simp
    have "sampler_inv width height radius (addPoint width radius (px ?cand) (py ?cand) ?s1)"
      using r inv1 isValid_true [OF r inv1 v] by (rule addPoint_inv)
    then show ?thesis
      using ok True by (auto simp add: Let_def addPoint_fields)
  next
    case False
    from Suc.IH [OF inv1] obtain found s' where
      "attempts width height radius (Some p) n ?s1 = Inr (found, s')"
      "sampler_inv width height radius s'"
      "if found then length (points s') = Suc (length (points ?s1))
             \<and> length (active s') = Suc (length (active ?s1))
       else points s' = points ?s1 \<and> active s' = active ?s1"
      by blast
    then show ?thesis
      using ok False by (auto simp add: Let_def)
  qed
qed

lemma splice1_in_range:
  assumes "0 \<le> k" and "nat k < length xs"
  shows "Suc (length (splice1 xs k)) = length xs" and "set (splice1 xs k) \<subseteq> set xs"
proof -
  have "k < int (length xs)" using assms by linarith
  then have k: "splice1 xs k = take (nat k) xs @ drop (nat k + 1) xs"
    using assms(1) by (simp add: splice1_def Let_def min_def)
  show "Suc (length (splice1 xs k)) = length xs" using assms by (simp add: k)
  show "set (splice1 xs k) \<subseteq> set xs"
    unfolding k using set_take_subset [of "nat k" xs] set_drop_subset [of "nat k + 1" xs] by auto
qed

lemma activeIdx_in_range:
  fixes u :: real
  assumes "0 \<le> u" "u < 1" "0 < n"
  shows "0 \<le> \<lfloor>u * real n\<rfloor> \<and> nat \<lfloor>u * real n\<rfloor> < n"
proof -
  have lo: "0 \<le> u * real n" using assms by simp
  have "u * real n < 1 * real n" using assms by (intro mult_strict_right_mono) simp_all
  then have "u * real n < real_of_int (int n)" by simp
  then have hi: "\<lfloor>u * real n\<rfloor> < int n" by (simp only: floor_less_iff)
  have "0 \<le> \<lfloor>u * real n\<rfloor>" using lo by simp
  then show ?thesis using hi by linarith
qed

lemma iteration_inv:
  assumes r: "0 < radius" and inv: "sampler_inv width height radius s" and ne: "active s \<noteq> []"
  shows "\<exists>s'. iteration width height radius maxAttempts s = Inr s'
      \<and> sampler_inv width height radius s'
      \<and> ((length (points s') = Suc (length (points s))
            \<and> length (active s') = Suc (length (active s)))
          \<or> (points s' = points s \<and> Suc (length (active s')) = length (active s)))"
proof -
  let ?k = "\<lfloor>shd (prng s) * real (length (active s))\<rfloor>"
  let ?s1 = "s\<lparr>prng := stl (prng s)\<rparr>"
  have u: "0 \<le> shd (prng s) \<and> shd (prng s) < 1"
    using inv shd_sset [of "prng s"] unfolding sampler_inv_def by blast
  have k: "0 \<le> ?k \<and> nat ?k < length (active s)"
    using u ne by (intro activeIdx_in_range) simp_all
  then have "active s ! nat ?k \<in> set (active s)" by simp
  then have pk: "active s ! nat ?k < length (points s)"
    using inv unfolding sampler_inv_def by blast
  have "sset (stl (prng s)) \<subseteq> sset (prng s)" by (auto dest: stl_sset)
  with inv have inv1: "sampler_inv width height radius ?s1" by (rule sampler_inv_prng)
  from attempts_inv [OF r inv1, of "points s ! (active s ! nat ?k)" maxAttempts]
  obtain found s2 where a: "attempts width height radius (Some (points s ! (active s ! nat ?k))) maxAttempts ?s1 = Inr (found, s2)"
    and inv2: "sampler_inv width height radius s2"
    and eff: "if found then length (points s2) = Suc (length (points ?s1))
             \<and> length (active s2) = Suc (length (active ?s1))
       else points s2 = points ?s1 \<and> active s2 = active ?s1"
    by blast
  have it: "iteration width height radius maxAttempts s
      = Inr (if found then s2 else s2\<lparr>active := splice1 (active s2) ?k\<rparr>)"
    using k pk a by (simp add: iteration_def Let_def)
  show ?thesis
  proof (cases found)
    case True
    then show ?thesis using it inv2 eff by simp
  next
    case False
    then have same: "points s2 = points s" "active s2 = active s" using eff by simp_all
    note sp = splice1_in_range [of ?k "active s"]
    have "set (splice1 (active s2) ?k) \<subseteq> set (active s2)"
      using sp(2) k by (simp add: same)
    with inv2 have "sampler_inv width height radius (s2\<lparr>active := splice1 (active s2) ?k\<rparr>)"
      by (rule sampler_inv_active)
    then show ?thesis using it False same sp(1) k by simp
  qed
qed

lemma points_bound:
  assumes r: "0 < radius" and inv: "sampler_inv width height radius s"
  shows "length (points s) \<le> nat (gridWidth width radius * gridHeight height radius)"
proof -
  let ?N = "gridWidth width radius * gridHeight height radius"
  let ?f = "\<lambda>i. gridIndex width radius (px (points s ! i)) (py (points s ! i))"
  have old: "\<forall>i < length (points s). in_area width height (points s ! i)
        \<and> grid s (?f i) = Some (int i)"
    using inv by (simp add: sampler_inv_def)
  have inj: "inj_on ?f {0..<length (points s)}"
  proof (rule inj_onI)
    fix i j assume "i \<in> {0..<length (points s)}" "j \<in> {0..<length (points s)}" "?f i = ?f j"
    then have "Some (int i) = Some (int j)" using old by (metis atLeastLessThan_iff)
    then show "i = j" by simp
  qed
  have sub: "?f ` {0..<length (points s)} \<subseteq> {0..<?N}"
  proof
    fix k assume "k \<in> ?f ` {0..<length (points s)}"
    then obtain i where i: "i < length (points s)" and k: "k = ?f i" by auto
    have area: "in_area width height (points s ! i)" using old i by simp
    note cg = point_cell_in_grid [OF r area]
    have "0 \<le> k \<and> k < ?N"
      unfolding k gridIndex_def Let_def using cg by (intro cell_index_range) simp_all
    then show "k \<in> {0..<?N}" by simp
  qed
  have "card {0..<length (points s)} \<le> card {0..<?N}"
    using inj sub by (rule card_inj_on_le) simp
  then show ?thesis by simp
qed

lemma whileActive_result:
  assumes r: "0 < radius"
  shows "sampler_inv width height radius s
    \<Longrightarrow> whileActive width height radius maxAttempts fuel s = Some res
    \<Longrightarrow> \<exists>sf. res = Inr (points sf) \<and> sampler_inv width height radius sf"
proof (induction fuel arbitrary: s)
  case 0
  then show ?case by (auto split: if_splits)
next
  case (Suc fuel)
  show ?case
  proof (cases "active s = []")
    case True
    then show ?thesis using Suc.prems by auto
  next
    case False
    from iteration_inv [OF r Suc.prems(1) False, of maxAttempts]
    obtain s' where "iteration width height radius maxAttempts s = Inr s'"
      and "sampler_inv width height radius s'" by blast
    then show ?thesis using Suc.IH [of s'] Suc.prems(2) False by simp
  qed
qed

lemma whileActive_terminates:
  assumes r: "0 < radius"
  shows "sampler_inv width height radius s
    \<Longrightarrow> 2 * (nat (gridWidth width radius * gridHeight height radius) - length (points s))
          + length (active s) \<le> fuel
    \<Longrightarrow> \<exists>res. whileActive width height radius maxAttempts fuel s = Some res"
proof (induction fuel arbitrary: s)
  case 0
  then show ?case by simp
next
  case (Suc fuel)
  let ?N = "nat (gridWidth width radius * gridHeight height radius)"
  show ?case
  proof (cases "active s = []")
    case True
    then show ?thesis by simp
  next
    case False
    from iteration_inv [OF r Suc.prems(1) False, of maxAttempts]
    obtain s' where it: "iteration width height radius maxAttempts s = Inr s'"
      and inv': "sampler_inv width height radius s'"
      and eff: "(length (points s') = Suc (length (points s))
            \<and> length (active s') = Suc (length (active s)))
          \<or> (points s' = points s \<and> Suc (length (active s')) = length (active s))"
      by blast
    have "length (points s') \<le> ?N" using r inv' by (rule points_bound)
    then have "2 * (?N - length (points s')) + length (active s') \<le> fuel"
      using eff Suc.prems(2) by auto
    from Suc.IH [OF inv' this] show ?thesis using it False by simp
  qed
qed

lemma newGrid_inv:
  assumes "newGrid (gridWidth width radius * gridHeight height radius) = Inr grid0"
    and "\<forall>u \<in> sset g. 0 \<le> u \<and> u < 1"
  shows "sampler_inv width height radius \<lparr>points = [], active = [], grid = grid0, prng = g\<rparr>"
proof -
  have "grid0 = (\<lambda>k. if 0 \<le> k \<and> k < gridWidth width radius * gridHeight height radius
      then Some (- 1) else None)"
    using assms(1) by (simp add: newGrid_def split: if_splits)
  then show ?thesis using assms(2) by (simp add: sampler_inv_def)
qed

lemma start_inv:
  assumes w: "0 < width" and h: "0 < height" and r: "0 < radius"
    and g: "\<forall>u \<in> sset g. 0 \<le> u \<and> u < 1"
    and n: "newGrid (gridWidth width radius * gridHeight height radius) = Inr grid0"
  shows "sampler_inv width height radius
     (addPoint width radius (shd g * width) (shd (stl g) * height)
        \<lparr>points = [], active = [], grid = grid0, prng = stl (stl g)\<rparr>)"
proof -
  have g2: "\<forall>u \<in> sset (stl (stl g)). 0 \<le> u \<and> u < 1" using g sset_stl_stl [of g] by blast
  have u1: "0 \<le> shd g \<and> shd g < 1" using g shd_sset [of g] by blast
  have "shd (stl g) \<in> sset g" using shd_sset [of "stl g"] by (auto dest: stl_sset)
  then have u2: "0 \<le> shd (stl g) \<and> shd (stl g) < 1" using g by blast
  have "in_area width height \<lparr>px = shd g * width, py = shd (stl g) * height\<rparr>"
    using u1 u2 w h by (simp add: in_area_def)
  then show ?thesis
    using r newGrid_inv [OF n g2] by (intro addPoint_inv) simp_all
qed

lemma poissonDisc_unfold:
  assumes "radius \<noteq> 0"
    and "newGrid (gridWidth width radius * gridHeight height radius) = Inr grid0"
  shows "poissonDisc width height radius maxAttempts g fuel
    = whileActive width height radius maxAttempts fuel
        (addPoint width radius (shd g * width) (shd (stl g) * height)
           \<lparr>points = [], active = [], grid = grid0, prng = stl (stl g)\<rparr>)"
  using assms by (simp add: poissonDisc_def Let_def)

lemma poissonDisc_final_state:
  assumes w: "0 < width" and h: "0 < height" and r: "0 < radius"
    and g: "\<forall>u \<in> sset g. 0 \<le> u \<and> u < 1"
    and res: "poissonDisc width height radius maxAttempts g fuel = Some (Inr pts)"
  shows "\<exists>sf. pts = points sf \<and> sampler_inv width height radius sf"
proof (cases "newGrid (gridWidth width radius * gridHeight height radius)")
  case (Inl e)
  then show ?thesis using res r by (simp add: poissonDisc_def)
next
  case (Inr grid0)
  have r0: "radius \<noteq> 0" using r by simp
  note run = res [unfolded poissonDisc_unfold [OF r0 Inr]]
  from whileActive_result [OF r start_inv [OF w h r g Inr] run]
  show ?thesis by auto
qed

lemma newGrid_valid:
  assumes w: "0 < width" and h: "0 < height" and r: "0 < radius"
    and n: "gridWidth width radius * gridHeight height radius \<le> 4294967295"
  shows "\<exists>grid0. newGrid (gridWidth width radius * gridHeight height radius) = Inr grid0"
proof -
  have c: "0 < cellSize radius" using r by (rule cellSize_pos)
  have "0 < gridWidth width radius" and "0 < gridHeight height radius"
    using w h c by (simp_all add: gridWidth_def gridHeight_def)
  then have "0 \<le> gridWidth width radius * gridHeight height radius" by simp
  then show ?thesis using n by (simp add: newGrid_def)
qed

lemma poissonDisc_returns:
  assumes w: "0 < width" and h: "0 < height" and r: "0 < radius"
    and g: "\<forall>u \<in> sset g. 0 \<le> u \<and> u < 1"
    and n: "gridWidth width radius * gridHeight height radius \<le> 4294967295"
    and fuel: "2 * nat (gridWidth width radius * gridHeight height radius) \<le> fuel"
  shows "\<exists>pts. poissonDisc width height radius maxAttempts g fuel = Some (Inr pts)"
proof -
  from newGrid_valid [OF w h r n] obtain grid0
    where ng: "newGrid (gridWidth width radius * gridHeight height radius) = Inr grid0" by blast
  have r0: "radius \<noteq> 0" using r by simp
  let ?s0 = "addPoint width radius (shd g * width) (shd (stl g) * height)
         \<lparr>points = [], active = [], grid = grid0, prng = stl (stl g)\<rparr>"
  note inv0 = start_inv [OF w h r g ng]
  have "length (points ?s0) \<le> nat (gridWidth width radius * gridHeight height radius)"
    using r inv0 by (rule points_bound)
  then have "2 * (nat (gridWidth width radius * gridHeight height radius) - length (points ?s0))
        + length (active ?s0) \<le> fuel"
    using fuel by (simp add: addPoint_fields)
  from whileActive_terminates [OF r inv0 this, of maxAttempts]
  obtain res where res: "whileActive width height radius maxAttempts fuel ?s0 = Some res" by blast
  from whileActive_result [OF r inv0 res] obtain sf :: sampler where "res = Inr (points sf)" by blast
  then show ?thesis using res unfolding poissonDisc_unfold [OF r0 ng] by simp
qed

text \<open>
  In exact arithmetic, for \<open>width > 0\<close>, \<open>height > 0\<close>, \<open>radius > 0\<close> and a generator whose
  numbers are all in \<open>[0, 1)\<close>: whenever \<^verbatim>\<open>poissonDisc\<close> returns an array, any two
  entries of the array at different positions are at a Euclidean distance of at least
  \<open>radius\<close>; and the call does return an array, within \<open>2 * gridWidth * gridHeight\<close>
  rounds of its loop, when the grid has a valid array length. (No bound on
  \<open>maxAttempts\<close> is needed.)
\<close>

lemma exact_min_distance:
  assumes "0 < width" and "0 < height" and "0 < radius"
    and "\<forall>u \<in> sset g. 0 \<le> u \<and> u < 1"
  shows "(\<forall>fuel pts i j.
            poissonDisc width height radius maxAttempts g fuel = Some (Inr pts)
            \<and> i < length pts \<and> j < length pts \<and> i \<noteq> j
            \<longrightarrow> radius \<le> distance (pts ! i) (pts ! j))
    \<and> (gridWidth width radius * gridHeight height radius \<le> 4294967295
        \<longrightarrow> (\<exists>pts. poissonDisc width height radius maxAttempts g
                     (2 * nat (gridWidth width radius * gridHeight height radius))
                   = Some (Inr pts)))"
proof (intro conjI allI impI)
  fix fuel pts i j
  assume a: "poissonDisc width height radius maxAttempts g fuel = Some (Inr pts)
            \<and> i < length pts \<and> j < length pts \<and> i \<noteq> j"
  then have res: "poissonDisc width height radius maxAttempts g fuel = Some (Inr pts)" by simp
  from poissonDisc_final_state [OF assms(1-4) res]
  obtain sf where pts: "pts = points sf" and inv: "sampler_inv width height radius sf" by blast
  have "radius * radius \<le> distanceSquared (pts ! i) (pts ! j)"
    using inv a unfolding pts sampler_inv_def by blast
  then have "sqrt (radius * radius) \<le> sqrt (distanceSquared (pts ! i) (pts ! j))"
    by (simp only: real_sqrt_le_iff)
  moreover have "sqrt (radius * radius) = radius" using assms(3) by simp
  moreover have "sqrt (distanceSquared (pts ! i) (pts ! j)) = distance (pts ! i) (pts ! j)"
    by (simp add: distanceSquared_def distance_def Let_def)
  ultimately show "radius \<le> distance (pts ! i) (pts ! j)" by simp
next
  assume "gridWidth width radius * gridHeight height radius \<le> 4294967295"
  with assms show "\<exists>pts. poissonDisc width height radius maxAttempts g
                     (2 * nat (gridWidth width radius * gridHeight height radius))
                   = Some (Inr pts)"
    by (intro poissonDisc_returns) simp_all
qed

text \<open>
  In exact arithmetic, for \<open>width > 0\<close>, \<open>height > 0\<close>, \<open>radius > 0\<close> and a generator whose
  numbers are all in \<open>[0, 1)\<close>, the loop of \<^verbatim>\<open>poissonDisc\<close> ends within
  \<open>2 * gridWidth * gridHeight\<close> rounds: with that many rounds allowed the call
  returns (an array, when the grid has a valid array length; the RangeError of the
  allocation otherwise). The number of accepted points is at most the number of grid cells. Every
  round from a state that satisfies the invariant of the sampler either accepts one point
  (one more point, one more active index) or removes one index from the active list,
  and the loop ends as soon as the active list is empty.
\<close>

lemma exact_terminates:
  assumes w: "0 < width" and h: "0 < height" and r: "0 < radius"
    and g: "\<forall>u \<in> sset g. 0 \<le> u \<and> u < 1"
    and fuel: "2 * nat (gridWidth width radius * gridHeight height radius) \<le> fuel"
  shows "(\<exists>res. poissonDisc width height radius maxAttempts g fuel = Some res)
    \<and> (gridWidth width radius * gridHeight height radius \<le> 4294967295
        \<longrightarrow> (\<exists>pts. poissonDisc width height radius maxAttempts g fuel = Some (Inr pts)))
    \<and> (\<forall>pts. poissonDisc width height radius maxAttempts g fuel = Some (Inr pts)
          \<longrightarrow> length pts \<le> nat (gridWidth width radius * gridHeight height radius))
    \<and> (\<forall>s. sampler_inv width height radius s \<and> active s \<noteq> []
          \<longrightarrow> (\<exists>s'. iteration width height radius maxAttempts s = Inr s'
                 \<and> sampler_inv width height radius s'
                 \<and> ((length (points s') = Suc (length (points s))
                       \<and> length (active s') = Suc (length (active s)))
                     \<or> (points s' = points s \<and> Suc (length (active s')) = length (active s)))))
    \<and> (\<forall>s n. active s = []
          \<longrightarrow> whileActive width height radius maxAttempts n s = Some (Inr (points s)))"
proof (intro conjI)
  show "\<exists>res. poissonDisc width height radius maxAttempts g fuel = Some res"
  proof (cases "newGrid (gridWidth width radius * gridHeight height radius)")
    case (Inl e)
    then show ?thesis using r by (simp add: poissonDisc_def)
  next
    case (Inr grid0)
    have r0: "radius \<noteq> 0" using r by simp
    let ?s0 = "addPoint width radius (shd g * width) (shd (stl g) * height)
           \<lparr>points = [], active = [], grid = grid0, prng = stl (stl g)\<rparr>"
    have "length (points ?s0) \<le> nat (gridWidth width radius * gridHeight height radius)"
      using r start_inv [OF w h r g Inr] by (rule points_bound)
    then have "2 * (nat (gridWidth width radius * gridHeight height radius) - length (points ?s0))
          + length (active ?s0) \<le> fuel"
      using fuel by (simp add: addPoint_fields)
    from whileActive_terminates [OF r start_inv [OF w h r g Inr] this]
    show ?thesis unfolding poissonDisc_unfold [OF r0 Inr] .
  qed
  show "gridWidth width radius * gridHeight height radius \<le> 4294967295
        \<longrightarrow> (\<exists>pts. poissonDisc width height radius maxAttempts g fuel = Some (Inr pts))"
    using poissonDisc_returns [OF w h r g _ fuel] by blast
  show "\<forall>pts. poissonDisc width height radius maxAttempts g fuel = Some (Inr pts)
          \<longrightarrow> length pts \<le> nat (gridWidth width radius * gridHeight height radius)"
    using poissonDisc_final_state [OF w h r g] points_bound [OF r] by blast
  show "\<forall>s. sampler_inv width height radius s \<and> active s \<noteq> []
          \<longrightarrow> (\<exists>s'. iteration width height radius maxAttempts s = Inr s'
                 \<and> sampler_inv width height radius s'
                 \<and> ((length (points s') = Suc (length (points s))
                       \<and> length (active s') = Suc (length (active s)))
                     \<or> (points s' = points s \<and> Suc (length (active s')) = length (active s))))"
    using iteration_inv [OF r] by blast
  show "\<forall>s n. active s = []
          \<longrightarrow> whileActive width height radius maxAttempts n s = Some (Inr (points s))"
  proof (intro allI impI)
    fix s :: sampler and n assume "active s = []"
    then show "whileActive width height radius maxAttempts n s = Some (Inr (points s))"
      by (cases n) simp_all
  qed
qed

lemma example_prng_range: "\<forall>u \<in> sset example_prng. 0 \<le> u \<and> u < 1"
proof -
  have "sqrt 2 < (2::real)" by (rule real_less_lsqrt) simp_all
  moreover have "(1::real) \<le> sqrt 2" by simp
  ultimately show ?thesis by (simp add: example_prng_def sset_cycle)
qed

lemma example_cellSize: "cellSize (sqrt 2) = 1"
  by (simp add: cellSize_def)

lemma example_newGrid: "newGrid (gridWidth 5 (sqrt 2) * gridHeight 1 (sqrt 2)) = Inr example_grid"
  by (simp add: gridWidth_def gridHeight_def example_cellSize newGrid_def example_grid_def)

lemma example_radius: "sqrt 2 + (sqrt 2 - 1) * sqrt 2 = 2"
  by (simp add: algebra_simps)

lemma example_iteration_1:
  "iteration 5 1 (sqrt 2) (Suc 0)
     \<lparr>points = [\<lparr>px = 0, py = 0\<rparr>], active = [0], grid = example_grid(0 \<mapsto> 0),
      prng = cycle [0, 0, sqrt 2 - 1]\<rparr>
   = Inr \<lparr>points = [\<lparr>px = 0, py = 0\<rparr>, \<lparr>px = 2, py = 0\<rparr>], active = [0, Suc 0],
          grid = example_grid(0 \<mapsto> 0, 2 \<mapsto> 1), prng = cycle [0, 0, sqrt 2 - 1]\<rparr>"
  by (simp add: iteration_def randomPointAround_def isValid_def addPoint_def gridIndex_def
      gridWidth_def gridHeight_def example_cellSize example_radius example_grid_def Let_def upto.simps)

lemma example_iteration_2:
  "iteration 5 1 (sqrt 2) (Suc 0)
     \<lparr>points = [\<lparr>px = 0, py = 0\<rparr>, \<lparr>px = 2, py = 0\<rparr>], active = [0, Suc 0], grid = example_grid(0 \<mapsto> 0, 2 \<mapsto> 1),
      prng = cycle [0, 0, sqrt 2 - 1]\<rparr>
   = Inr \<lparr>points = [\<lparr>px = 0, py = 0\<rparr>, \<lparr>px = 2, py = 0\<rparr>], active = [Suc 0], grid = example_grid(0 \<mapsto> 0, 2 \<mapsto> 1),
      prng = cycle [0, 0, sqrt 2 - 1]\<rparr>"
  by (simp add: iteration_def randomPointAround_def isValid_def addPoint_def gridIndex_def
      gridWidth_def gridHeight_def example_cellSize example_radius example_grid_def Let_def
      upto.simps splice1_def)

lemma example_iteration_3:
  "iteration 5 1 (sqrt 2) (Suc 0)
     \<lparr>points = [\<lparr>px = 0, py = 0\<rparr>, \<lparr>px = 2, py = 0\<rparr>], active = [Suc 0], grid = example_grid(0 \<mapsto> 0, 2 \<mapsto> 1),
      prng = cycle [0, 0, sqrt 2 - 1]\<rparr>
   = Inr \<lparr>points = [\<lparr>px = 0, py = 0\<rparr>, \<lparr>px = 2, py = 0\<rparr>, \<lparr>px = 4, py = 0\<rparr>], active = [Suc 0, 2], grid = example_grid(0 \<mapsto> 0, 2 \<mapsto> 1, 4 \<mapsto> 2),
      prng = cycle [0, 0, sqrt 2 - 1]\<rparr>"
  by (simp add: iteration_def randomPointAround_def isValid_def addPoint_def gridIndex_def
      gridWidth_def gridHeight_def example_cellSize example_radius example_grid_def Let_def
      upto.simps splice1_def)

lemma example_iteration_4:
  "iteration 5 1 (sqrt 2) (Suc 0)
     \<lparr>points = [\<lparr>px = 0, py = 0\<rparr>, \<lparr>px = 2, py = 0\<rparr>, \<lparr>px = 4, py = 0\<rparr>], active = [Suc 0, 2], grid = example_grid(0 \<mapsto> 0, 2 \<mapsto> 1, 4 \<mapsto> 2),
      prng = cycle [0, 0, sqrt 2 - 1]\<rparr>
   = Inr \<lparr>points = [\<lparr>px = 0, py = 0\<rparr>, \<lparr>px = 2, py = 0\<rparr>, \<lparr>px = 4, py = 0\<rparr>], active = [2], grid = example_grid(0 \<mapsto> 0, 2 \<mapsto> 1, 4 \<mapsto> 2),
      prng = cycle [0, 0, sqrt 2 - 1]\<rparr>"
  by (simp add: iteration_def randomPointAround_def isValid_def addPoint_def gridIndex_def
      gridWidth_def gridHeight_def example_cellSize example_radius example_grid_def Let_def
      upto.simps splice1_def)

lemma example_iteration_5:
  "iteration 5 1 (sqrt 2) (Suc 0)
     \<lparr>points = [\<lparr>px = 0, py = 0\<rparr>, \<lparr>px = 2, py = 0\<rparr>, \<lparr>px = 4, py = 0\<rparr>], active = [2], grid = example_grid(0 \<mapsto> 0, 2 \<mapsto> 1, 4 \<mapsto> 2),
      prng = cycle [0, 0, sqrt 2 - 1]\<rparr>
   = Inr \<lparr>points = [\<lparr>px = 0, py = 0\<rparr>, \<lparr>px = 2, py = 0\<rparr>, \<lparr>px = 4, py = 0\<rparr>], active = [], grid = example_grid(0 \<mapsto> 0, 2 \<mapsto> 1, 4 \<mapsto> 2),
      prng = cycle [0, 0, sqrt 2 - 1]\<rparr>"
  by (simp add: iteration_def randomPointAround_def isValid_def addPoint_def gridIndex_def
      gridWidth_def gridHeight_def example_cellSize example_radius example_grid_def Let_def
      upto.simps splice1_def)

lemma example_loop:
  "whileActive 5 1 (sqrt 2) (Suc 0) (Suc (Suc (Suc (Suc (Suc n)))))
     \<lparr>points = [\<lparr>px = 0, py = 0\<rparr>], active = [0], grid = example_grid(0 \<mapsto> 0),
         prng = cycle [0, 0, sqrt 2 - 1]\<rparr>
   = Some (Inr [\<lparr>px = 0, py = 0\<rparr>, \<lparr>px = 2, py = 0\<rparr>, \<lparr>px = 4, py = 0\<rparr>])"
  by (cases n)
    (simp_all add: example_iteration_1 example_iteration_2 example_iteration_3
      example_iteration_4 example_iteration_5)

lemma example_start:
  "poissonDisc 5 1 (sqrt 2) (Suc 0) example_prng fuel
     = whileActive 5 1 (sqrt 2) (Suc 0) fuel
         \<lparr>points = [\<lparr>px = 0, py = 0\<rparr>], active = [0], grid = example_grid(0 \<mapsto> 0),
           prng = cycle [0, 0, sqrt 2 - 1]\<rparr>"
  by (simp add: poissonDisc_def example_newGrid example_prng_def addPoint_def gridIndex_def
      example_cellSize Let_def)

lemma example_run:
  "poissonDisc 5 1 (sqrt 2) (Suc 0) example_prng 10
     = Some (Inr [\<lparr>px = 0, py = 0\<rparr>, \<lparr>px = 2, py = 0\<rparr>, \<lparr>px = 4, py = 0\<rparr>])"
proof -
  have "(10::nat) = Suc (Suc (Suc (Suc (Suc 5))))" by simp
  then show ?thesis unfolding example_start by (simp only: example_loop)
qed

lemma exact_min_distance_example:
  "poissonDisc 5 1 (sqrt 2) (Suc 0) example_prng 10
     = Some (Inr [\<lparr>px = 0, py = 0\<rparr>, \<lparr>px = 2, py = 0\<rparr>, \<lparr>px = 4, py = 0\<rparr>])
   \<and> sqrt 2 \<le> distance \<lparr>px = 0, py = 0\<rparr> \<lparr>px = 2, py = 0\<rparr>"
proof -
  have "\<forall>fuel (pts :: point list) i j.
      poissonDisc 5 1 (sqrt 2) (Suc 0) example_prng fuel = Some (Inr pts)
      \<and> i < length pts \<and> j < length pts \<and> i \<noteq> j
      \<longrightarrow> sqrt 2 \<le> distance (pts ! i) (pts ! j)"
    using exact_min_distance [OF _ _ _ example_prng_range, of 5 1 "sqrt 2" "Suc 0"]
    by (simp only: zero_less_numeral zero_less_one real_sqrt_gt_0_iff) blast
  from this [rule_format, of 10 _ 0 1] example_run show ?thesis by simp
qed

lemma exact_terminates_example:
  "2 * nat (gridWidth 5 (sqrt 2) * gridHeight 1 (sqrt 2)) \<le> 10
   \<and> (\<exists>res. poissonDisc 5 1 (sqrt 2) (Suc 0) example_prng 10 = Some res)"
proof -
  have f: "2 * nat (gridWidth 5 (sqrt 2) * gridHeight 1 (sqrt 2)) \<le> 10"
    by (simp add: gridWidth_def gridHeight_def example_cellSize)
  show ?thesis
    using f exact_terminates [OF _ _ _ example_prng_range f, of "Suc 0"] by simp
qed

lemma ceiling_minus_sqrt2: "\<lceil>- sqrt 2\<rceil> = - 1"
proof (rule ceiling_unique)
  have "sqrt 2 < (2::real)" by (rule real_less_lsqrt) simp_all
  then show "real_of_int (- 1) - 1 < - sqrt 2" by simp
  show "- sqrt 2 \<le> real_of_int (- 1)" by simp
qed

text \<open>
  The claim C2 as stated fails: a call with the negative radius \<open>-1\<close> raises no error.
  It samples and returns the seed point.
\<close>

theorem poissonDisc_negative_radius:
  "poissonDisc 1 1 (- 1) (Suc 0) (sconst 0) (Suc 0) = Some (Inr [\<lparr>px = 0, py = 0\<rparr>])"
  by (simp add: poissonDisc_def gridWidth_def gridHeight_def cellSize_def ceiling_minus_sqrt2
      newGrid_def addPoint_def gridIndex_def iteration_def randomPointAround_def isValid_def
      splice1_def Let_def)

lemma isValid_empty_area:
  "width \<le> 0 \<or> height \<le> 0 \<Longrightarrow> isValid width height radius pts g x y = Inr False"
  by (auto simp add: isValid_def)

lemma attempts_empty_area:
  assumes "width \<le> 0 \<or> height \<le> 0"
  shows "\<exists>s'. attempts width height radius (Some p) n s = Inr (False, s')
      \<and> points s' = points s \<and> active s' = active s \<and> grid s' = grid s"
proof (induction n arbitrary: s)
  case 0
  show ?case by simp
next
  case (Suc n)
  let ?s1 = "s\<lparr>prng := snd (randomPointAround radius p (prng s))\<rparr>"
  from Suc [of ?s1] obtain s' where
    "attempts width height radius (Some p) n ?s1 = Inr (False, s')"
    "points s' = points ?s1 \<and> active s' = active ?s1 \<and> grid s' = grid ?s1"
    by blast
  then show ?case
    by (simp add: Let_def isValid_empty_area [OF assms])
qed

text \<open>
  Claim C2, as amended. \<^verbatim>\<open>poissonDisc\<close> checks none of its arguments and has no
  invalid-argument error. With \<open>radius = 0\<close> the call fails before any sampling, with
  the RangeError of the allocation of the grid. With \<open>radius > 0\<close> and a width or a
  height that is not positive, the call is not rejected: unless the length of the grid
  is not a valid array length (a RangeError again), it samples, no candidate is valid,
  and it returns the seed point alone.
\<close>

theorem poissonDisc_no_argument_check:
  "(radius = 0 \<longrightarrow> poissonDisc width height radius maxAttempts g fuel = Some (Inl RangeError))
   \<and> (0 < radius \<and> (width \<le> 0 \<or> height \<le> 0) \<and> 0 \<le> shd (stl (stl g)) \<and> shd (stl (stl g)) < 1 \<longrightarrow>
        poissonDisc width height radius maxAttempts g (Suc fuel)
          = (if gridWidth width radius * gridHeight height radius < 0
                \<or> 4294967295 < gridWidth width radius * gridHeight height radius
             then Some (Inl RangeError)
             else Some (Inr [\<lparr>px = shd g * width, py = shd (stl g) * height\<rparr>])))"
proof (intro conjI impI)
  assume "radius = 0"
  then show "poissonDisc width height radius maxAttempts g fuel = Some (Inl RangeError)"
    by (simp add: poissonDisc_def)
next
  assume a: "0 < radius \<and> (width \<le> 0 \<or> height \<le> 0) \<and> 0 \<le> shd (stl (stl g)) \<and> shd (stl (stl g)) < 1"
  let ?N = "gridWidth width radius * gridHeight height radius"
  let ?p = "\<lparr>px = shd g * width, py = shd (stl g) * height\<rparr>"
  show "poissonDisc width height radius maxAttempts g (Suc fuel)
          = (if ?N < 0 \<or> 4294967295 < ?N then Some (Inl RangeError) else Some (Inr [?p]))"
  proof (cases "?N < 0 \<or> 4294967295 < ?N")
    case True
    then show ?thesis using a by (simp add: poissonDisc_def newGrid_def)
  next
    case False
    define grid0 where "grid0 = (\<lambda>k. if 0 \<le> k \<and> k < ?N then Some (- 1 :: int) else None)"
    have ng: "newGrid ?N = Inr grid0" using False by (simp add: newGrid_def grid0_def)
    have r0: "radius \<noteq> 0" using a by simp
    let ?s0 = "addPoint width radius (shd g * width) (shd (stl g) * height)
           \<lparr>points = [], active = [], grid = grid0, prng = stl (stl g)\<rparr>"
    let ?s1 = "?s0\<lparr>prng := stl (prng ?s0)\<rparr>"
    have "\<lfloor>shd (stl (stl g))\<rfloor> = 0" using a by linarith
    then have k: "\<lfloor>shd (prng ?s0) * real (length (active ?s0))\<rfloor> = 0"
      by (simp add: addPoint_fields)
    from attempts_empty_area [of width height radius ?p maxAttempts ?s1] a
    obtain s' where at: "attempts width height radius (Some ?p) maxAttempts ?s1 = Inr (False, s')"
      and same: "points s' = points ?s1" "active s' = active ?s1" by blast
    have it: "iteration width height radius maxAttempts ?s0 = Inr (s'\<lparr>active := []\<rparr>)"
      unfolding iteration_def Let_def k using at same
      by (simp add: addPoint_fields splice1_def)
    have "whileActive width height radius maxAttempts (Suc fuel) ?s0
        = whileActive width height radius maxAttempts fuel (s'\<lparr>active := []\<rparr>)"
      using it by (simp add: addPoint_fields)
    also have "\<dots> = Some (Inr [?p])"
      using same by (cases fuel) (simp_all add: addPoint_fields)
    finally show ?thesis
      using False unfolding poissonDisc_unfold [OF r0 ng] by simp
  qed
qed

theorem poissonDisc_no_argument_check_witness:
  "poissonDisc 5 1 0 30 example_prng 7 = Some (Inl RangeError)
   \<and> poissonDisc 0 1 1 30 (sconst 0) (Suc 0) = Some (Inr [\<lparr>px = 0, py = 0\<rparr>])"
  using poissonDisc_no_argument_check [of 0 5 1 30 example_prng 7]
    poissonDisc_no_argument_check [of 1 0 1 30 "sconst 0" 0]
  by (simp add: gridWidth_def)

section \<open>The sampler in binary64 arithmetic\<close>

text \<open>
  The rounding of a number \<open>v\<close> in the normal range: when \<open>2^(e + 52) \<le> |v| < 2^(e + 53)\<close>
  and \<open>v / 2^e\<close> is less than a half away from the integer \<open>m\<close>, the rounded number is
  \<open>m * 2^e\<close>.
\<close>

lemma pow2_powr: "pow2 e = 2 powr of_int e"
proof (cases "0 \<le> e")
  case True
  then have "2 powr of_int e = (2::real) powr real (nat e)" by simp
  also have "\<dots> = 2 ^ nat e" by (rule powr_realpow) simp
  finally show ?thesis using True by (simp add: pow2_def)
next
  case False
  then have "2 powr of_int e = (2::real) powr (- real (nat (- e)))" by simp
  also have "\<dots> = 1 / 2 powr real (nat (- e))" by (simp add: powr_minus_divide)
  also have "2 powr real (nat (- e)) = (2::real) ^ nat (- e)" by (rule powr_realpow) simp
  finally show ?thesis using False by (simp add: pow2_def)
qed

lemma pow2_pos: "0 < pow2 e"
  by (simp add: pow2_powr)

lemma floor_log2:
  assumes "pow2 k \<le> x" and "x < pow2 (k + 1)"
  shows "\<lfloor>log 2 x\<rfloor> = k"
proof -
  have x: "0 < x" using assms(1) pow2_pos [of k] by linarith
  have "2 powr of_int k \<le> x" using assms(1) by (simp add: pow2_powr)
  then have lo: "of_int k \<le> log 2 x" using x by (simp add: le_log_iff)
  have "x < 2 powr of_int (k + 1)" using assms(2) by (simp add: pow2_powr)
  then have hi: "log 2 x < of_int (k + 1)" using x by (simp add: log_less_iff)
  show ?thesis using lo hi by linarith
qed

lemma round_ties_even_near:
  assumes "\<bar>q - of_int m\<bar> < 1 / 2"
  shows "round_ties_even q = m"
proof -
  consider "of_int m \<le> q" | "q < of_int m" by linarith
  then show ?thesis
  proof cases
    case 1
    then have "\<lfloor>q\<rfloor> = m" using assms by linarith
    then show ?thesis using assms 1 by (simp add: round_ties_even_def Let_def)
  next
    case 2
    then have f: "\<lfloor>q\<rfloor> = m - 1" using assms by linarith
    have "1 / 2 < q - of_int (m - 1)" using assms 2 by simp
    then show ?thesis using f by (simp add: round_ties_even_def Let_def)
  qed
qed

lemma fl64_near:
  assumes e: "- 1074 \<le> e"
    and lo: "pow2 (e + 52) \<le> \<bar>v\<bar>" and hi: "\<bar>v\<bar> < pow2 (e + 53)"
    and m: "\<bar>v / pow2 e - of_int m\<bar> < 1 / 2"
  shows "fl64 v = of_int m * pow2 e"
proof -
  have "\<lfloor>log 2 \<bar>v\<bar>\<rfloor> = e + 52"
    using lo hi by (intro floor_log2) (simp_all add: add.commute add.left_commute)
  then have u: "ulp_exponent v = e" using e by (simp add: ulp_exponent_def)
  have "v \<noteq> 0" using lo pow2_pos [of "e + 52"] by auto
  then show ?thesis
    using round_ties_even_near [OF m] by (simp add: fl64_def u)
qed

text \<open>
  A number half way between two neighbours goes to the one with the even \<open>m\<close>. Three
  checks of the rounding: the number \<open>0.1\<close>, and the two ties \<open>1 + 2^-53\<close> (down to
  \<open>1\<close>) and \<open>1 + 3 * 2^-53\<close> (up to \<open>1 + 2^-51\<close>).
\<close>

lemma round_ties_even_half:
  "round_ties_even (of_int n + 1 / 2) = (if even n then n else n + 1)"
proof -
  have "\<lfloor>of_int n + 1 / 2 :: real\<rfloor> = n" by linarith
  then show ?thesis by (simp add: round_ties_even_def Let_def)
qed

lemma fl64_tie:
  assumes e: "- 1074 \<le> e"
    and lo: "pow2 (e + 52) \<le> \<bar>v\<bar>" and hi: "\<bar>v\<bar> < pow2 (e + 53)"
    and m: "v / pow2 e = of_int n + 1 / 2"
  shows "fl64 v = of_int (if even n then n else n + 1) * pow2 e"
proof -
  have "\<lfloor>log 2 \<bar>v\<bar>\<rfloor> = e + 52"
    using lo hi by (intro floor_log2) (simp_all add: add.commute add.left_commute)
  then have u: "ulp_exponent v = e" using e by (simp add: ulp_exponent_def)
  have "v \<noteq> 0" using lo pow2_pos [of "e + 52"] by auto
  then show ?thesis
    using round_ties_even_half [of n] by (simp only: fl64_def u m if_False)
qed

lemma fl64_tenth: "fl64 (1 / 10) = 3602879701896397 / 36028797018963968"
  by (rule trans [OF fl64_near [of "- 56" _ 7205759403792794]]) (simp_all add: pow2_def)

lemma fl64_tie_down: "fl64 (1 + 1 / 2 ^ 53) = 1"
  by (rule trans [OF fl64_tie [of "- 52" _ 4503599627370496]]) (simp_all add: pow2_def)

lemma fl64_tie_up: "fl64 (1 + 3 / 2 ^ 53) = 1 + 1 / 2 ^ 51"
  by (rule trans [OF fl64_tie [of "- 52" _ 4503599627370497]]) (simp_all add: pow2_def)

text \<open>The roundings of the two runs.\<close>

lemma fl64_zero: "fl64 0 = 0"
  by (simp add: fl64_def)

lemma fl64_fact_1: "fl64 (2547620669010309 / 25476206690103092) = 7205759403792793 / 72057594037927936"
  by (rule trans [OF fl64_near [of "- 56" _ 7205759403792793]]) (simp_all add: pow2_def)

lemma fl64_fact_2: "fl64 (72057594037927936 / 7205759403792793) = 10"
  by (rule trans [OF fl64_near [of "- 49" _ 5629499534213120]]) (simp_all add: pow2_def)

lemma fl64_fact_3: "fl64 (7656119366529843 / 9007199254740992) = 7656119366529843 / 9007199254740992"
  by (rule trans [OF fl64_near [of "- 53" _ 7656119366529843]]) (simp_all add: pow2_def)

lemma fl64_fact_4: "fl64 (1 / 2) = 1 / 2"
  by (rule trans [OF fl64_near [of "- 53" _ 4503599627370496]]) (simp_all add: pow2_def)

lemma fl64_fact_5: "fl64 (61248954932238744 / 7205759403792793) = 17 / 2"
  by (rule trans [OF fl64_near [of "- 49" _ 4785074604081152]]) (simp_all add: pow2_def)

lemma fl64_fact_6: "fl64 (36028797018963968 / 7205759403792793) = 5"
  by (rule trans [OF fl64_near [of "- 50" _ 5629499534213120]]) (simp_all add: pow2_def)

lemma fl64_fact_7: "fl64 (5567858132438323823918724256215 / 649037107316853453566312041152512) = 4945251437183561 / 576460752303423488"
  by (rule trans [OF fl64_near [of "- 59" _ 4945251437183561]]) (simp_all add: pow2_def)

lemma fl64_fact_8: "fl64 (86469112845513449 / 576460752303423488) = 5404319552844591 / 36028797018963968"
  by (rule trans [OF fl64_near [of "- 55" _ 5404319552844591]]) (simp_all add: pow2_def)

lemma fl64_fact_9: "fl64 1 = 1"
  by (rule trans [OF fl64_near [of "- 52" _ 4503599627370496]]) (simp_all add: pow2_def)

lemma fl64_fact_10: "fl64 (5404319552844591 / 36028797018963968) = 5404319552844591 / 36028797018963968"
  by (rule trans [OF fl64_near [of "- 55" _ 5404319552844591]]) (simp_all add: pow2_def)

lemma fl64_fact_11: "fl64 (36028797018963963 / 36028797018963968) = 9007199254740991 / 9007199254740992"
  by (rule trans [OF fl64_near [of "- 53" _ 9007199254740991]]) (simp_all add: pow2_def)

lemma fl64_fact_12: "fl64 (72057594037927928 / 7205759403792793) = 10"
  by (rule trans [OF fl64_near [of "- 49" _ 5629499534213120]]) (simp_all add: pow2_def)

lemma fl64_fact_13: "fl64 (- (337769972052787 / 2251799813685248)) = - (337769972052787 / 2251799813685248)"
  by (rule trans [OF fl64_near [of "- 55" _ "- 5404319552844592"]]) (simp_all add: pow2_def)

lemma fl64_fact_14: "fl64 (114088554020540511026714467369 / 5070602400912917605986812821504) = 6485183463413507 / 288230376151711744"
  by (rule trans [OF fl64_near [of "- 58" _ 6485183463413507]]) (simp_all add: pow2_def)

lemma fl64_fact_15: "fl64 (6485183463413507 / 288230376151711744) = 6485183463413507 / 288230376151711744"
  by (rule trans [OF fl64_near [of "- 58" _ 6485183463413507]]) (simp_all add: pow2_def)

lemma fl64_fact_16: "fl64 (6490371073168534403953548275481 / 324518553658426726783156020576256) = 5764607523034235 / 288230376151711744"
  by (rule trans [OF fl64_near [of "- 58" _ 5764607523034235]]) (simp_all add: pow2_def)

lemma fl64_fact_17: "fl64 (7642862007030927 / 2305843009213693952) = 7642862007030927 / 2305843009213693952"
  by (rule trans [OF fl64_near [of "- 61" _ 7642862007030927]]) (simp_all add: pow2_def)

lemma fl64_fact_18: "fl64 (333738307640350479 / 2305843009213693952) = 1303665264220119 / 9007199254740992"
  by (rule trans [OF fl64_near [of "- 55" _ 5214661056880476]]) (simp_all add: pow2_def)

lemma fl64_fact_19: "fl64 (1303665264220119 / 9007199254740992) = 1303665264220119 / 9007199254740992"
  by (rule trans [OF fl64_near [of "- 55" _ 5214661056880476]]) (simp_all add: pow2_def)

lemma fl64_fact_20: "fl64 (4479892315374981 / 4503599627370496) = 4479892315374981 / 4503599627370496"
  by (rule trans [OF fl64_near [of "- 53" _ 8959784630749962]]) (simp_all add: pow2_def)

lemma fl64_fact_21: "fl64 (71678277045999696 / 7205759403792793) = 5599865394218727 / 562949953421312"
  by (rule trans [OF fl64_near [of "- 49" _ 5599865394218727]]) (simp_all add: pow2_def)

lemma fl64_fact_22: "fl64 (- (1303665264220119 / 9007199254740992)) = - (1303665264220119 / 9007199254740992)"
  by (rule trans [OF fl64_near [of "- 55" _ "- 5214661056880476"]]) (simp_all add: pow2_def)

lemma fl64_fact_23: "fl64 (1699543121134112684541284374161 / 81129638414606681695789005144064) = 6037990094164459 / 288230376151711744"
  by (rule trans [OF fl64_near [of "- 58" _ 6037990094164459]]) (simp_all add: pow2_def)

lemma fl64_fact_24: "fl64 (6037990094164459 / 288230376151711744) = 6037990094164459 / 288230376151711744"
  by (rule trans [OF fl64_near [of "- 58" _ 6037990094164459]]) (simp_all add: pow2_def)

lemma fl64_fact_25: "fl64 (2547620669010309 / 36028797018963968) = 2547620669010309 / 36028797018963968"
  by (rule trans [OF fl64_near [of "- 56" _ 5095241338020618]]) (simp_all add: pow2_def)

lemma fl64_fact_26: "fl64 (7642862007030927 / 36028797018963968) = 7642862007030927 / 36028797018963968"
  by (rule trans [OF fl64_near [of "- 55" _ 7642862007030927]]) (simp_all add: pow2_def)

lemma fl64_fact_27: "fl64 (38267339473150299 / 36028797018963968) = 4783417434143787 / 4503599627370496"
  by (rule trans [OF fl64_near [of "- 52" _ 4783417434143787]]) (simp_all add: pow2_def)

lemma fl64_fact_28: "fl64 (43671659025994891 / 36028797018963968) = 5458957378249361 / 4503599627370496"
  by (rule trans [OF fl64_near [of "- 52" _ 5458957378249361]]) (simp_all add: pow2_def)

lemma fl64_fact_29: "fl64 (43482000530030775 / 36028797018963968) = 5435250066253847 / 4503599627370496"
  by (rule trans [OF fl64_near [of "- 52" _ 5435250066253847]]) (simp_all add: pow2_def)


lemmas fl64_facts = fl64_zero fl64_fact_1 fl64_fact_2 fl64_fact_3 fl64_fact_4 fl64_fact_5 fl64_fact_6
  fl64_fact_7 fl64_fact_8 fl64_fact_9 fl64_fact_10 fl64_fact_11 fl64_fact_12 fl64_fact_13
  fl64_fact_14 fl64_fact_15 fl64_fact_16 fl64_fact_17 fl64_fact_18 fl64_fact_19 fl64_fact_20
  fl64_fact_21 fl64_fact_22 fl64_fact_23 fl64_fact_24 fl64_fact_25 fl64_fact_26 fl64_fact_27
  fl64_fact_28 fl64_fact_29

lemma run_cellSize: "cellSize_f64 run_radius = 7205759403792793 / 72057594037927936"
  by (simp add: cellSize_f64_def run_radius_def Math_SQRT2_def fl64_facts)

lemma run_gridWidth: "gridWidth_f64 1 run_radius = 10"
  by (simp add: gridWidth_f64_def run_cellSize fl64_facts)

lemma run_gridHeight: "gridHeight_f64 1 run_radius = 10"
  by (simp add: gridHeight_f64_def run_cellSize fl64_facts)

text \<open>
  The grid of the runs, the point that a round proposes from the seed point, and its
  cell: the quotient \<open>0.9999999999999999 / 0.09999999999999999\<close> rounds to \<open>10\<close>, so
  the point has the column \<open>10\<close>, the number of columns of the grid, and the index
  \<open>5 * 10 + 10 = 60\<close>, the index of the first cell of the next row. The scan around
  a point of row 5 stops at the column \<open>9\<close>, the index \<open>59\<close> of that row, and never
  reads the index \<open>60\<close>.
\<close>

lemma run_newGrid: "newGrid (gridWidth_f64 1 run_radius * gridHeight_f64 1 run_radius) = Inr run_grid"
  by (simp add: run_gridWidth run_gridHeight newGrid_def run_grid_def)

lemma run_candidate:
  assumes "shd g = 0" and "shd (stl g) = run_draw"
  shows "randomPointAround_f64 run_radius seed_point g = (edge_point, stl (stl g))"
  by (simp add: assms randomPointAround_f64_def Let_def seed_point_def edge_point_def run_radius_def
      run_draw_def Math_cos_def Math_sin_def Math_PI_def fl64_facts)

lemma seed_point_index: "gridIndex_f64 1 run_radius (7656119366529843 / 9007199254740992) (1 / 2) = 58"
  by (simp add: gridIndex_f64_def Let_def run_cellSize run_gridWidth fl64_facts)

lemma edge_point_index: "gridIndex_f64 1 run_radius (9007199254740991 / 9007199254740992) (1 / 2) = 60"
  by (simp add: gridIndex_f64_def Let_def run_cellSize run_gridWidth fl64_facts)

lemma edge_point_scan:
  "isValid_f64 1 1 run_radius pts g (9007199254740991 / 9007199254740992) (1 / 2)
     = scanCells_f64 run_radius pts g (9007199254740991 / 9007199254740992) (1 / 2)
         [38, 39, 48, 49, 58, 59, 68, 69, 78, 79]"
  by (simp add: isValid_f64_def Let_def run_cellSize run_gridWidth run_gridHeight fl64_facts
      upto.simps)

lemma scanCells_f64_empty:
  "g idx = Some (- 1) \<Longrightarrow>
     scanCells_f64 radius pts g x y (idx # rest) = scanCells_f64 radius pts g x y rest"
  by simp

lemma edge_point_far:
  "g 58 = Some 0 \<Longrightarrow>
   scanCells_f64 run_radius (seed_point # others) g (9007199254740991 / 9007199254740992) (1 / 2) (58 # rest)
     = scanCells_f64 run_radius (seed_point # others) g (9007199254740991 / 9007199254740992) (1 / 2) rest"
  by (simp add: Let_def seed_point_def run_radius_def fl64_facts)


lemma edge_point_valid:
  assumes "g 58 = Some 0"
    and "\<forall>k \<in> set [38, 39, 48, 49, 59, 68, 69, 78, 79]. g k = Some (- 1)"
  shows "isValid_f64 1 1 run_radius (seed_point # others) g
           (9007199254740991 / 9007199254740992) (1 / 2) = Inr True"
proof -
  from assms(2) have e: "g 38 = Some (- 1)" "g 39 = Some (- 1)" "g 48 = Some (- 1)"
    "g 49 = Some (- 1)" "g 59 = Some (- 1)" "g 68 = Some (- 1)" "g 69 = Some (- 1)"
    "g 78 = Some (- 1)" "g 79 = Some (- 1)"
    by simp_all
  show ?thesis
    unfolding edge_point_scan
    by (simp only: scanCells_f64_empty [of g _ run_radius, OF e(1)] scanCells_f64_empty [of g _ run_radius, OF e(2)]
        scanCells_f64_empty [of g _ run_radius, OF e(3)] scanCells_f64_empty [of g _ run_radius, OF e(4)] edge_point_far [of g, OF assms(1)]
        scanCells_f64_empty [of g _ run_radius, OF e(5)] scanCells_f64_empty [of g _ run_radius, OF e(6)] scanCells_f64_empty [of g _ run_radius, OF e(7)]
        scanCells_f64_empty [of g _ run_radius, OF e(8)] scanCells_f64_empty [of g _ run_radius, OF e(9)] scanCells_f64.simps(1))
qed

lemma cycle_draws: "stl (stl (stl (cycle [a, b, c]))) = cycle [a, b, c]"
  by simp

lemma loop_inv_step:
  assumes "loop_inv s"
  shows "\<exists>s'. iteration_f64 1 1 run_radius (Suc 0) s = Inr s' \<and> loop_inv s'
           \<and> length (points s') = Suc (length (points s))"
proof -
  from assms obtain others arest where p: "points s = seed_point # others"
    and a: "active s = 0 # arest" and g58: "grid s 58 = Some 0"
    and gk: "\<forall>k \<in> set [38, 39, 48, 49, 59, 68, 69, 78, 79]. grid s k = Some (- 1)"
    and pr: "prng s = cycle [0, 0, run_draw]"
    unfolding loop_inv_def by blast
  let ?s1 = "s\<lparr>prng := stl (prng s)\<rparr>"
  let ?s2 = "?s1\<lparr>prng := snd (randomPointAround_f64 run_radius seed_point (prng ?s1))\<rparr>"
  let ?s3 = "addPoint_f64 1 run_radius (9007199254740991 / 9007199254740992) (1 / 2) ?s2"
  have idx: "\<lfloor>fl64 (shd (prng s) * real (length (active s)))\<rfloor> = 0"
    by (simp add: pr fl64_zero)
  have cand: "randomPointAround_f64 run_radius seed_point (stl (prng s)) = (edge_point, cycle [0, 0, run_draw])"
    using run_candidate [of "stl (prng s)"] by (simp add: pr)
  have valid: "isValid_f64 1 1 run_radius (points ?s2) (grid ?s2)
      (9007199254740991 / 9007199254740992) (1 / 2) = Inr True"
    using edge_point_valid [OF g58 gk] by (simp add: p)
  have att: "attempts_f64 1 1 run_radius (Some seed_point) (Suc 0) ?s1 = Inr (True, ?s3)"
    using valid by (simp add: cand Let_def edge_point_def)
  have it: "iteration_f64 1 1 run_radius (Suc 0) s = Inr ?s3"
    unfolding iteration_f64_def Let_def idx using att by (simp add: a p)
  have "loop_inv ?s3"
    using g58 gk
    by (simp add: loop_inv_def addPoint_f64_def Let_def edge_point_index p a cand)
  moreover have "length (points ?s3) = Suc (length (points s))"
    by (simp add: addPoint_f64_def Let_def)
  ultimately show ?thesis using it by blast
qed

lemma loop_inv_forever:
  "loop_inv s \<Longrightarrow> whileActive_f64 1 1 run_radius (Suc 0) fuel s = None"
proof (induction fuel arbitrary: s)
  case 0
  then show ?case by (auto simp add: loop_inv_def)
next
  case (Suc fuel)
  from loop_inv_step [OF Suc.prems] obtain s' :: sampler where
    "iteration_f64 1 1 run_radius (Suc 0) s = Inr s'" and "loop_inv s'" by blast
  moreover have "active s \<noteq> []" using Suc.prems by (auto simp add: loop_inv_def)
  ultimately show ?case using Suc.IH [of s'] by simp
qed

lemma loop_start:
  "poissonDisc_f64 1 1 run_radius (Suc 0) loop_prng fuel
     = whileActive_f64 1 1 run_radius (Suc 0) fuel
         \<lparr>points = [seed_point], active = [0], grid = run_grid(58 \<mapsto> 0),
           prng = cycle [0, 0, run_draw]\<rparr>"
  by (simp add: poissonDisc_f64_def run_cellSize run_newGrid loop_prng_def addPoint_f64_def
      seed_point_index Let_def fl64_facts seed_point_def)

text \<open>
  Claim C6 fails on the code. In the first run every round proposes the point
  \<open>(0.9999999999999999, 0.5)\<close> again and accepts it, since its cell is never scanned:
  each round adds one point and one active index (\<open>loop_inv_step\<close>), the active list
  is never empty, and whatever the number of rounds the call has not returned. The
  number of accepted points exceeds the \<open>100\<close> cells of the grid.
\<close>

theorem poissonDisc_f64_never_returns:
  "poissonDisc_f64 1 1 run_radius (Suc 0) loop_prng fuel = None"
  unfolding loop_start
  by (rule loop_inv_forever) (simp add: loop_inv_def run_grid_def)

text \<open>
  The second run: the point \<open>(0.9999999999999999, 0.5)\<close> is accepted in the first
  round and filed under the index \<open>60\<close>; the second round proposes
  \<open>(0.9947359192741214, 0.5)\<close>, whose scan covers the columns 7 to 9 and meets the seed
  point only; the three following rounds propose points outside the square and empty
  the active list.
\<close>

lemmas run_around_simps = randomPointAround_f64_def Let_def seed_point_def edge_point_def
  near_point_def run_radius_def run_draw_def Math_cos_def Math_sin_def Math_PI_def fl64_facts

lemma run_candidate_near:
  assumes "shd g = 0" and "shd (stl g) = 3 / 128"
  shows "randomPointAround_f64 run_radius seed_point g = (near_point, stl (stl g))"
  by (simp add: assms run_around_simps)

lemma run_candidate_out_1:
  assumes "shd g = 0" and "shd (stl g) = 1 / 2"
  shows "randomPointAround_f64 run_radius seed_point g
    = (\<lparr>px = 4783417434143787 / 4503599627370496, py = 1 / 2\<rparr>, stl (stl g))"
  by (simp add: assms run_around_simps)

lemma run_candidate_out_2:
  assumes "shd g = 0" and "shd (stl g) = 1 / 2"
  shows "randomPointAround_f64 run_radius edge_point g
    = (\<lparr>px = 5458957378249361 / 4503599627370496, py = 1 / 2\<rparr>, stl (stl g))"
  by (simp add: assms run_around_simps)

lemma run_candidate_out_3:
  assumes "shd g = 0" and "shd (stl g) = 1 / 2"
  shows "randomPointAround_f64 run_radius near_point g
    = (\<lparr>px = 5435250066253847 / 4503599627370496, py = 1 / 2\<rparr>, stl (stl g))"
  by (simp add: assms run_around_simps)

lemma isValid_f64_outside:
  "width \<le> x \<Longrightarrow> isValid_f64 width height radius pts g x y = Inr False"
  by (simp add: isValid_f64_def)

lemma near_point_index: "gridIndex_f64 1 run_radius (4479892315374981 / 4503599627370496) (1 / 2) = 59"
  by (simp add: gridIndex_f64_def Let_def run_cellSize run_gridWidth fl64_facts)

lemma near_point_scan:
  "isValid_f64 1 1 run_radius pts g (4479892315374981 / 4503599627370496) (1 / 2)
     = scanCells_f64 run_radius pts g (4479892315374981 / 4503599627370496) (1 / 2)
         [37, 38, 39, 47, 48, 49, 57, 58, 59, 67, 68, 69, 77, 78, 79]"
  by (simp add: isValid_f64_def Let_def run_cellSize run_gridWidth run_gridHeight fl64_facts
      upto.simps)

lemma near_point_far:
  "g 58 = Some 0 \<Longrightarrow>
   scanCells_f64 run_radius (seed_point # others) g (4479892315374981 / 4503599627370496) (1 / 2) (58 # rest)
     = scanCells_f64 run_radius (seed_point # others) g (4479892315374981 / 4503599627370496) (1 / 2) rest"
  by (simp add: Let_def seed_point_def run_radius_def fl64_facts)

lemma near_point_valid:
  "isValid_f64 1 1 run_radius [seed_point, edge_point] (run_grid(58 \<mapsto> 0, 60 \<mapsto> 1))
     (4479892315374981 / 4503599627370496) (1 / 2) = Inr True"
  unfolding near_point_scan
  by (simp add: near_point_far scanCells_f64_empty run_grid_def del: scanCells_f64.simps(2))


lemma run_points_simps:
  "px seed_point = 7656119366529843 / 9007199254740992" "py seed_point = 1 / 2"
  "px edge_point = 9007199254740991 / 9007199254740992" "py edge_point = 1 / 2"
  "px near_point = 4479892315374981 / 4503599627370496" "py near_point = 1 / 2"
  by (simp_all add: seed_point_def edge_point_def near_point_def)

lemma edge_point_valid_start:
  "isValid_f64 1 1 run_radius [seed_point] (run_grid(58 \<mapsto> 0))
     (9007199254740991 / 9007199254740992) (1 / 2) = Inr True"
  by (rule edge_point_valid) (simp_all add: run_grid_def)

lemmas close_run_simps = iteration_f64_def Let_def fl64_zero run_candidate run_candidate_near
  run_candidate_out_1 run_candidate_out_2 run_candidate_out_3 run_points_simps
  edge_point_valid_start near_point_valid isValid_f64_outside addPoint_f64_def edge_point_index
  near_point_index splice1_def

lemma close_iteration_1:
  "iteration_f64 1 1 run_radius (Suc 0)
     \<lparr>points = [seed_point], active = [0], grid = run_grid(58 \<mapsto> 0),
      prng = 0 ## 0 ## run_draw ## 0 ## 0 ## (3 / 128) ## cycle [0, 0, 1 / 2]\<rparr>
   = Inr \<lparr>points = [seed_point, edge_point], active = [0, Suc 0],
          grid = run_grid(58 \<mapsto> 0, 60 \<mapsto> 1),
          prng = 0 ## 0 ## (3 / 128) ## cycle [0, 0, 1 / 2]\<rparr>"
  by (simp add: close_run_simps)

lemma close_iteration_2:
  "iteration_f64 1 1 run_radius (Suc 0)
     \<lparr>points = [seed_point, edge_point], active = [0, Suc 0],
      grid = run_grid(58 \<mapsto> 0, 60 \<mapsto> 1),
      prng = 0 ## 0 ## (3 / 128) ## cycle [0, 0, 1 / 2]\<rparr>
   = Inr \<lparr>points = [seed_point, edge_point, near_point], active = [0, Suc 0, 2],
          grid = run_grid(58 \<mapsto> 0, 60 \<mapsto> 1, 59 \<mapsto> 2),
          prng = cycle [0, 0, 1 / 2]\<rparr>"
  by (simp add: close_run_simps)

lemma close_iteration_3:
  "iteration_f64 1 1 run_radius (Suc 0)
     \<lparr>points = [seed_point, edge_point, near_point], active = [0, Suc 0, 2],
      grid = run_grid(58 \<mapsto> 0, 60 \<mapsto> 1, 59 \<mapsto> 2),
      prng = cycle [0, 0, 1 / 2]\<rparr>
   = Inr \<lparr>points = [seed_point, edge_point, near_point], active = [Suc 0, 2],
          grid = run_grid(58 \<mapsto> 0, 60 \<mapsto> 1, 59 \<mapsto> 2),
          prng = cycle [0, 0, 1 / 2]\<rparr>"
  by (simp add: close_run_simps)

lemma close_iteration_4:
  "iteration_f64 1 1 run_radius (Suc 0)
     \<lparr>points = [seed_point, edge_point, near_point], active = [Suc 0, 2],
      grid = run_grid(58 \<mapsto> 0, 60 \<mapsto> 1, 59 \<mapsto> 2),
      prng = cycle [0, 0, 1 / 2]\<rparr>
   = Inr \<lparr>points = [seed_point, edge_point, near_point], active = [2],
          grid = run_grid(58 \<mapsto> 0, 60 \<mapsto> 1, 59 \<mapsto> 2),
          prng = cycle [0, 0, 1 / 2]\<rparr>"
  by (simp add: close_run_simps)

lemma close_iteration_5:
  "iteration_f64 1 1 run_radius (Suc 0)
     \<lparr>points = [seed_point, edge_point, near_point], active = [2],
      grid = run_grid(58 \<mapsto> 0, 60 \<mapsto> 1, 59 \<mapsto> 2),
      prng = cycle [0, 0, 1 / 2]\<rparr>
   = Inr \<lparr>points = [seed_point, edge_point, near_point], active = [],
          grid = run_grid(58 \<mapsto> 0, 60 \<mapsto> 1, 59 \<mapsto> 2),
          prng = cycle [0, 0, 1 / 2]\<rparr>"
  by (simp add: close_run_simps)

lemma close_loop:
  "whileActive_f64 1 1 run_radius (Suc 0) (Suc (Suc (Suc (Suc (Suc n)))))
     \<lparr>points = [seed_point], active = [0], grid = run_grid(58 \<mapsto> 0),
      prng = 0 ## 0 ## run_draw ## 0 ## 0 ## (3 / 128) ## cycle [0, 0, 1 / 2]\<rparr>
   = Some (Inr [seed_point, edge_point, near_point])"
  by (cases n)
    (simp_all add: close_iteration_1 close_iteration_2 close_iteration_3 close_iteration_4
      close_iteration_5)

lemma close_start:
  "poissonDisc_f64 1 1 run_radius (Suc 0) close_prng fuel
     = whileActive_f64 1 1 run_radius (Suc 0) fuel
         \<lparr>points = [seed_point], active = [0], grid = run_grid(58 \<mapsto> 0),
           prng = 0 ## 0 ## run_draw ## 0 ## 0 ## (3 / 128) ## cycle [0, 0, 1 / 2]\<rparr>"
  by (simp add: poissonDisc_f64_def run_cellSize run_newGrid close_prng_def addPoint_f64_def
      seed_point_index Let_def fl64_facts seed_point_def)

lemma close_distance: "distance edge_point near_point < run_radius / 20"
  by (simp add: distance_def Let_def edge_point_def near_point_def run_radius_def)

text \<open>
  Claim C1 fails on the code. The second run returns three points after five rounds,
  and the second and the third of them are less than a twentieth of \<open>radius\<close> apart.
\<close>

theorem poissonDisc_f64_close_points:
  "poissonDisc_f64 1 1 run_radius (Suc 0) close_prng 5
     = Some (Inr [seed_point, edge_point, near_point])
   \<and> distance edge_point near_point < run_radius / 20
   \<and> distance edge_point near_point < run_radius"
proof -
  have "(5::nat) = Suc (Suc (Suc (Suc (Suc 0))))" by simp
  then have "poissonDisc_f64 1 1 run_radius (Suc 0) close_prng 5
     = Some (Inr [seed_point, edge_point, near_point])"
    unfolding close_start by (simp only: close_loop)
  moreover have "(0::real) < run_radius" by (simp add: run_radius_def)
  ultimately show ?thesis using close_distance by simp
qed

text \<open>
  The calls with a radius that is not positive, in binary64 arithmetic. They behave as
  in exact arithmetic: the radius \<open>0\<close> gives the cell size \<open>0\<close> and the RangeError of
  the allocation, and the radius \<open>-1\<close> gives a grid of one cell and the seed point.
\<close>

lemma fl64_minus_1:
  "fl64 (- (4503599627370496 / 6369051672525773)) = - (1592262918131443 / 2251799813685248)"
  by (rule trans [OF fl64_near [of "- 53" _ "- 6369051672525772"]]) (simp_all add: pow2_def)

lemma fl64_minus_2:
  "fl64 (- (2251799813685248 / 1592262918131443)) = - (6369051672525773 / 4503599627370496)"
  by (rule trans [OF fl64_near [of "- 52" _ "- 6369051672525773"]]) (simp_all add: pow2_def)

lemma fl64_minus_3: "fl64 (- 1) = - 1"
  by (rule trans [OF fl64_near [of "- 52" _ "- 4503599627370496"]]) (simp_all add: pow2_def)

lemma minus_cellSize: "cellSize_f64 (- 1) = - (1592262918131443 / 2251799813685248)"
  by (simp add: cellSize_f64_def Math_SQRT2_def fl64_minus_1)

lemma minus_grid: "gridWidth_f64 1 (- 1) = - 1" "gridHeight_f64 1 (- 1) = - 1"
proof -
  have "\<lceil>- (6369051672525773 / 4503599627370496 :: real)\<rceil> = - 1"
    by (rule ceiling_unique) simp_all
  then show "gridWidth_f64 1 (- 1) = - 1" "gridHeight_f64 1 (- 1) = - 1"
    by (simp_all add: gridWidth_f64_def gridHeight_f64_def minus_cellSize fl64_minus_2)
qed

lemma poissonDisc_f64_zero_radius:
  "poissonDisc_f64 width height 0 maxAttempts g fuel = Some (Inl RangeError)"
  by (simp add: poissonDisc_f64_def cellSize_f64_def fl64_zero)

lemma poissonDisc_f64_negative_radius:
  "poissonDisc_f64 1 1 (- 1) (Suc 0) (sconst 0) (Suc 0) = Some (Inr [\<lparr>px = 0, py = 0\<rparr>])"
  by (simp add: poissonDisc_f64_def minus_cellSize minus_grid newGrid_def addPoint_f64_def
      gridIndex_f64_def iteration_f64_def randomPointAround_f64_def isValid_f64_def
      Math_cos_def Math_sin_def fl64_zero fl64_minus_3 fl64_fact_9 splice1_def Let_def)

end
